theory Spec2Isabelle
  imports Main
begin

section \<open>The FIX message formatter (parse-fix-msg.py)\<close>

text \<open>
  A shallow embedding of the class \<open>FIXParser\<close> of \<^verbatim>\<open>parse-fix-msg.py\<close>.

  \<^item> Python strings are \<open>string\<close>; a \<open>char\<close> stands for one code point below 256.
  \<^item> The data dictionary is the element tree that \<^verbatim>\<open>xml.etree.ElementTree\<close> hands
    to the program: an element has a tag, an attribute dictionary and its children in
    document order.
  \<^item> \<^verbatim>\<open>output_file.write(s)\<close> and \<^verbatim>\<open>print(s)\<close> only ever append, so every method is
    modelled by the sequence of effects it performs, in program order. The output file
    holds the concatenation of the \<open>Write\<close> payloads.
  \<^item> A raised exception is a value of \<open>py_error\<close>; every \<^verbatim>\<open>try ... except Exception\<close>
    of the source is a case distinction on it.
  \<^item> Opening, reading and writing the files are taken to succeed; command-line parsing
    is outside the model and delivers the two flags.
\<close>

subsection \<open>Exceptions and effects\<close>

datatype py_error =
    NoneHasNoAttribute string
  | LenOfNone
  | ConcatNone
  | NonePlusStr
  | PathError string

text \<open>\<^verbatim>\<open>str(e)\<close> for the exceptions above, as CPython words them.\<close>

fun str_of_error :: "py_error \<Rightarrow> string" where
  "str_of_error (NoneHasNoAttribute a) = [CHR 0x27] @ ''NoneType'' @ [CHR 0x27] @ '' object has no attribute '' @ [CHR 0x27] @ a @ [CHR 0x27]"
| "str_of_error LenOfNone = ''object of type '' @ [CHR 0x27] @ ''NoneType'' @ [CHR 0x27] @ '' has no len()''"
| "str_of_error ConcatNone = ''can only concatenate str (not '' @ [CHR 0x22] @ ''NoneType'' @ [CHR 0x22] @ '') to str''"
| "str_of_error NonePlusStr = ''unsupported operand type(s) for +: '' @ [CHR 0x27] @ ''NoneType'' @ [CHR 0x27] @ '' and '' @ [CHR 0x27] @ ''str'' @ [CHR 0x27]"
| "str_of_error (PathError msg) = msg"

datatype effect = Write string | Print string

text \<open>The text of the output file after a run: what was written, in order.\<close>

definition written :: "effect list \<Rightarrow> string list" where
  "written tr = concat (map (\<lambda>ef. case ef of Write s \<Rightarrow> [s] | Print _ \<Rightarrow> []) tr)"

definition printed :: "effect list \<Rightarrow> string list" where
  "printed tr = concat (map (\<lambda>ef. case ef of Write _ \<Rightarrow> [] | Print s \<Rightarrow> [s]) tr)"

subsection \<open>Element trees\<close>

datatype element = Element (tag: string) (attrib: "(string \<times> string) list") (children: "element list")

text \<open>\<^verbatim>\<open>Element.get(key)\<close>: the attribute's value, or Python's \<open>None\<close>.\<close>

definition get :: "element \<Rightarrow> string \<Rightarrow> string option" where
  "get e key = map_of (attrib e) key"

text \<open>\<^verbatim>\<open>e.find("./t")\<close>: the first child of \<open>e\<close> whose tag is \<open>t\<close>, or \<open>None\<close>.\<close>

definition find_child :: "string \<Rightarrow> element \<Rightarrow> element option" where
  "find_child t e = List.find (\<lambda>c. tag c = t) (children e)"

text \<open>
  \<^verbatim>\<open>e.find(f"./t[@k='{v}']")\<close>. The source builds the path text by putting \<open>v\<close> between
  two apostrophes. For a \<open>v\<close> that holds no apostrophe itself (\<open>xpath_plain\<close>) the path
  selects the first child of \<open>e\<close> with tag \<open>t\<close> whose attribute \<open>k\<close> is \<open>v\<close>, or \<open>None\<close>.
  For any other \<open>v\<close> the library reads the text as some other path, or raises; what it
  does then is the parameter \<open>lib\<close>, a function of the path text and the element.
\<close>

definition xpath_plain :: "string \<Rightarrow> bool" where
  "xpath_plain v = (CHR 0x27 \<notin> set v)"

type_synonym path_reader = "string \<Rightarrow> element \<Rightarrow> py_error + element option"

definition find_child_attr ::
    "path_reader \<Rightarrow> string \<Rightarrow> string \<Rightarrow> string \<Rightarrow> element \<Rightarrow> py_error + element option" where
  "find_child_attr lib t k v e =
     (if xpath_plain v then Inr (List.find (\<lambda>c. tag c = t \<and> get c k = Some v) (children e))
      else lib (''./'' @ t @ ''[@'' @ k @ ''='' @ [CHR 0x27] @ v @ [CHR 0x27] @ '']'') e)"

subsection \<open>Python string operations\<close>

text \<open>\<^verbatim>\<open>for i in range(n): s += piece\<close>\<close>

fun append_n :: "nat \<Rightarrow> string \<Rightarrow> string \<Rightarrow> string" where
  "append_n 0 piece s = s"
| "append_n (Suc n) piece s = append_n n piece (s @ piece)"

text \<open>\<^verbatim>\<open>s.split(c)\<close> for a separator of one character: never an empty list.\<close>

fun py_split :: "char \<Rightarrow> string \<Rightarrow> string list" where
  "py_split c [] = [[]]"
| "py_split c (x # xs) =
     (if x = c then [] # py_split c xs
      else (x # hd (py_split c xs)) # tl (py_split c xs))"

text \<open>\<^verbatim>\<open>str.isspace\<close> on one character below 256, and \<^verbatim>\<open>s.strip()\<close>.\<close>

definition is_space :: "char \<Rightarrow> bool" where
  "is_space c = (c \<in> set [CHR 0x09, CHR 0x0A, CHR 0x0B, CHR 0x0C, CHR 0x0D,
                           CHR 0x1C, CHR 0x1D, CHR 0x1E, CHR 0x1F, CHR 0x20,
                           CHR 0x85, CHR 0xA0])"

definition strip :: "string \<Rightarrow> string" where
  "strip s = rev (dropWhile is_space (rev (dropWhile is_space s)))"

text \<open>
  \<^verbatim>\<open>input_file.readline()\<close> on the text not yet read: the next line with its newline
  (the last line may lack one) and the text left; the empty string at the end of file.
\<close>

fun readline :: "string \<Rightarrow> string \<times> string" where
  "readline [] = ([], [])"
| "readline (c # cs) =
     (if c = CHR 0x0A then ([c], cs)
      else (c # fst (readline cs), snd (readline cs)))"

subsection \<open>The parser object\<close>

definition tag_column_length :: int where "tag_column_length = 5"
definition field_name_column_length :: int where "field_name_column_length = 23"
definition trailing_column_length :: int where "trailing_column_length = 65"
definition msg_separator_length :: int where "msg_separator_length = 100"

text \<open>
  \<open>self\<close>: the two flags of \<^verbatim>\<open>self.args\<close> that the formatter reads, and \<^verbatim>\<open>self.fields\<close> as \<open>fields_elem\<close>
  (\<open>None\<close> until \<open>init_fields\<close> finds a \<open>fields\<close> section).
\<close>

record fix_parser =
  hide_enums :: bool
  row_lines :: bool
  fields_elem :: "element option"

text \<open>
  \<^verbatim>\<open>self.row_separator\<close> and \<^verbatim>\<open>self.msg_separator\<close> are assigned once, by the two builders
  that \<open>main\<close> calls first, and read only afterwards; they are the values built here.
\<close>

definition build_row_separator :: string where
  "build_row_separator =
     (let s = [];
          s = append_n (nat tag_column_length) ''-'' s;
          s = s @ ''-+-'';
          s = append_n (nat field_name_column_length) ''-'' s;
          s = s @ ''-+-'';
          s = append_n (nat trailing_column_length) ''-'' s
      in s @ [CHR 0x0A])"

definition build_msg_separator :: string where
  "build_msg_separator = append_n (nat msg_separator_length) ''.'' [] @ [CHR 0x0A]"

text \<open>
  The outcome of \<^verbatim>\<open>ET.parse(path).getroot()\<close>: an exception with its message, or the
  root element.
\<close>

datatype document = Unparsable string | Parsed element

text \<open>\<^verbatim>\<open>for child in root: if child.tag == "fields": self.fields = child\<close>\<close>

fun init_fields_loop :: "element list \<Rightarrow> fix_parser \<Rightarrow> fix_parser" where
  "init_fields_loop [] self = self"
| "init_fields_loop (child # rest) self =
     init_fields_loop rest (if tag child = ''fields'' then self\<lparr>fields_elem := Some child\<rparr> else self)"

definition init_fields :: "fix_parser \<Rightarrow> document \<Rightarrow> effect list \<times> fix_parser" where
  "init_fields self doc =
     (case doc of
        Unparsable msg \<Rightarrow> ([Print (''init_fields Exception :- '' @ msg)], self)
      | Parsed root \<Rightarrow> ([], init_fields_loop (children root) self))"

subsection \<open>get_enum_str\<close>

text \<open>The first \<open>if\<close> of \<open>get_enum_str\<close>: the annotation of the value itself.\<close>

definition enum_meaning :: "path_reader \<Rightarrow> element \<Rightarrow> string \<Rightarrow> py_error + string" where
  "enum_meaning lib field tag_value =
     (case find_child ''value'' field of
        None \<Rightarrow> Inr []
      | Some firstVal \<Rightarrow>
          (case find_child_attr lib ''value'' ''enum'' tag_value field of
             Inl e \<Rightarrow> Inl e
           | Inr (Some meaning) \<Rightarrow>
               (case get meaning ''description'' of
                  None \<Rightarrow> Inl ConcatNone
                | Some d \<Rightarrow> Inr ('' ('' @ d @ '')''))
           | Inr None \<Rightarrow> Inr '' (ERROR: NO MATCHING ENUM. CHECK DICTIONARY)''))"

text \<open>\<^verbatim>\<open>for enum in field: enums += enum.get("enum") + " : " + enum.get("description") + ", "\<close>\<close>

fun enum_loop :: "element list \<Rightarrow> string \<Rightarrow> py_error + string" where
  "enum_loop [] enums = Inr enums"
| "enum_loop (enum # rest) enums =
     (case get enum ''enum'' of
        None \<Rightarrow> Inl NonePlusStr
      | Some code \<Rightarrow>
          (case get enum ''description'' of
             None \<Rightarrow> Inl ConcatNone
           | Some d \<Rightarrow> enum_loop rest (enums @ code @ '' : '' @ d @ '', '')))"

text \<open>The body of the \<open>try\<close>. An element is true in Python when it has children.\<close>

definition get_enum_str_body :: "path_reader \<Rightarrow> fix_parser \<Rightarrow> string \<Rightarrow> string \<Rightarrow> py_error + string" where
  "get_enum_str_body lib self tag_number tag_value =
     (case fields_elem self of
        None \<Rightarrow> Inl (NoneHasNoAttribute ''find'')
      | Some fs \<Rightarrow>
          (case find_child_attr lib ''field'' ''number'' tag_number fs of
             Inl e \<Rightarrow> Inl e
           | Inr None \<Rightarrow> Inl (NoneHasNoAttribute ''find'')
           | Inr (Some field) \<Rightarrow>
               (case enum_meaning lib field tag_value of
                  Inl e \<Rightarrow> Inl e
                | Inr enums \<Rightarrow>
                    if children field \<noteq> [] then
                      (let enum_padding = trailing_column_length - int (length enums);
                           enums = append_n (nat enum_padding) '' '' enums
                       in enum_loop (children field) enums)
                    else Inr enums)))"

text \<open>With the handler: the exception is printed and the method returns \<open>None\<close>.\<close>

definition get_enum_str ::
    "path_reader \<Rightarrow> fix_parser \<Rightarrow> string \<Rightarrow> string \<Rightarrow> effect list \<times> string option" where
  "get_enum_str lib self tag_number tag_value =
     (case get_enum_str_body lib self tag_number tag_value of
        Inl e \<Rightarrow> ([Print (''get_enum_str Exception :- '' @ str_of_error e)], None)
      | Inr enums \<Rightarrow> ([], Some enums))"

subsection \<open>make_readable\<close>

text \<open>
  One pass of the \<open>for\<close> loop from \<^verbatim>\<open>tag_number = pair[0]\<close> to the line that is written:
  the effects up to the end of the pass or up to the exception, and the line or the
  exception.
\<close>

definition make_readable_body ::
    "path_reader \<Rightarrow> fix_parser \<Rightarrow> string \<Rightarrow> string \<Rightarrow> effect list \<times> (py_error + string)" where
  "make_readable_body lib self tag_number tag_value =
     (case fields_elem self of
        None \<Rightarrow> ([], Inl (NoneHasNoAttribute ''find''))
      | Some fs \<Rightarrow>
          (case find_child_attr lib ''field'' ''number'' tag_number fs of
             Inl e \<Rightarrow> ([], Inl e)
           | Inr None \<Rightarrow> ([], Inl (NoneHasNoAttribute ''get''))
           | Inr (Some field) \<Rightarrow>
               (let padding1_len = tag_column_length - int (length tag_number);
                    padding1 = (if padding1_len > 0 then append_n (nat padding1_len) '' '' [] else [])
                in case get field ''name'' of
                     None \<Rightarrow> ([], Inl LenOfNone)
                   | Some tag_name \<Rightarrow>
                       (let padding2_len = field_name_column_length - int (length tag_name);
                            padding2 = (if padding2_len > 0 then append_n (nat padding2_len) '' '' [] else []);
                            (tr, enums) = (if \<not> hide_enums self then get_enum_str lib self tag_number tag_value
                                           else ([], Some []))
                        in case enums of
                             None \<Rightarrow> (tr, Inl ConcatNone)
                           | Some enums \<Rightarrow>
                               (tr, Inr (tag_number @ padding1 @ '' | '' @ tag_name @ padding2 @ '' | ''
                                         @ tag_value @ enums @ [CHR 0x0A]))))))"

text \<open>
  The \<open>for\<close> loop inside the \<open>try\<close>: an exception ends the loop, and the handler prints
  the tag number and the exception. \<open>pair\<close> is never empty, so \<^verbatim>\<open>pair[0]\<close> exists, and
  \<^verbatim>\<open>pair[1]\<close> exists when the length is not 1.
\<close>

fun make_readable_loop :: "path_reader \<Rightarrow> fix_parser \<Rightarrow> string list \<Rightarrow> effect list" where
  "make_readable_loop lib self [] = []"
| "make_readable_loop lib self (tag_str # rest) =
     (let pair = py_split CHR ''='' tag_str in
      if length pair = 1 then make_readable_loop lib self rest
      else
        (let tag_number = pair ! 0; tag_value = pair ! 1 in
         case make_readable_body lib self tag_number tag_value of
           (tr, Inl e) \<Rightarrow>
             tr @ [Print (''tag number '' @ tag_number @ '' readable Exception :- '' @ str_of_error e)]
         | (tr, Inr line) \<Rightarrow>
             tr @ [Write line] @ (if row_lines self then [Write build_row_separator] else [])
             @ make_readable_loop lib self rest))"

definition make_readable :: "path_reader \<Rightarrow> fix_parser \<Rightarrow> string list \<Rightarrow> effect list" where
  "make_readable lib self tags =
     (if row_lines self then [Write build_row_separator] else []) @ make_readable_loop lib self tags"

subsection \<open>parse_input_file and main\<close>

text \<open>The \<open>while line:\<close> loop; \<open>input\<close> is the text that \<open>readline\<close> has not consumed yet.\<close>

function parse_input_loop :: "path_reader \<Rightarrow> fix_parser \<Rightarrow> string \<Rightarrow> string \<Rightarrow> effect list" where
  "parse_input_loop lib self line input =
     (if line = [] then []
      else
        (let line' = strip line in
         if line' = [] \<or> hd line' = CHR ''#'' then
           parse_input_loop lib self (fst (readline input)) (snd (readline input))
         else
           (let tags = py_split (CHR 0x01) line' in
            make_readable lib self tags @ [Write build_msg_separator]
            @ parse_input_loop lib self (fst (readline input)) (snd (readline input)))))"
  by pat_completeness auto
termination
proof -
  have consumed: "(case readline s of (l, r) \<Rightarrow> length l + length r) = length s" for s
    by (induction s) (auto simp: case_prod_beta)
  show ?thesis
    by (relation "measure (\<lambda>(lib, self, line, input). length line + length input)")
       (simp_all add: consumed)
qed

declare parse_input_loop.simps [simp del]

definition parse_input_file :: "path_reader \<Rightarrow> fix_parser \<Rightarrow> string \<Rightarrow> effect list" where
  "parse_input_file lib self input =
     parse_input_loop lib self (fst (readline input)) (snd (readline input))"

text \<open>
  \<open>main\<close>: the parser is created with the flags, the separators are built, the dictionary
  is loaded, the input is processed.
\<close>

definition main :: "path_reader \<Rightarrow> bool \<Rightarrow> bool \<Rightarrow> document \<Rightarrow> string \<Rightarrow> effect list" where
  "main lib hide rows doc input =
     (let self = \<lparr>hide_enums = hide, row_lines = rows, fields_elem = None\<rparr>;
          (tr, self) = init_fields self doc
      in tr @ parse_input_file lib self input)"

subsection \<open>Notions used in the statements\<close>

text \<open>The lines of a text in the order in which \<open>readline\<close> returns them.\<close>

fun file_lines :: "string \<Rightarrow> string list" where
  "file_lines [] = []"
| "file_lines (c # cs) =
     (if c = CHR 0x0A then [c] # file_lines cs
      else (case file_lines cs of [] \<Rightarrow> [[c]] | l # ls \<Rightarrow> (c # l) # ls))"

text \<open>A line that the loop does not skip: neither blank nor a comment.\<close>

definition is_message :: "string \<Rightarrow> bool" where
  "is_message line = (strip line \<noteq> [] \<and> hd (strip line) \<noteq> CHR ''#'')"

text \<open>
  Right-padding with spaces to a column width, as the claims word it: a text shorter
  than the width is filled up, any other text is left as it is.
\<close>

definition pad_right :: "nat \<Rightarrow> string \<Rightarrow> string" where
  "pad_right w s = (if length s < w then s @ replicate (w - length s) CHR '' '' else s)"

text \<open>What the loop does for one line read from the file.\<close>

definition line_block :: "path_reader \<Rightarrow> fix_parser \<Rightarrow> string \<Rightarrow> effect list" where
  "line_block lib self line =
     (if is_message line
      then make_readable lib self (py_split (CHR 0x01) (strip line)) @ [Write build_msg_separator]
      else [])"

text \<open>A small dictionary: field 54 with two enum values, field 55 without any.\<close>

definition example_side :: element where
  "example_side =
     Element ''field'' [(''number'', ''54''), (''name'', ''Side'')]
       [Element ''value'' [(''enum'', ''1''), (''description'', ''BUY'')] [],
        Element ''value'' [(''enum'', ''2''), (''description'', ''SELL'')] []]"

definition example_symbol :: element where
  "example_symbol = Element ''field'' [(''number'', ''55''), (''name'', ''Symbol'')] []"

definition example_fields :: element where
  "example_fields = Element ''fields'' [] [example_side, example_symbol]"

definition example_dictionary :: document where
  "example_dictionary = Parsed (Element ''fix'' [] [Element ''header'' [] [], example_fields])"

text \<open>A library that rejects every path it is asked about.\<close>

definition strict_lib :: path_reader where
  "strict_lib path e = Inl (PathError ''invalid predicate'')"

definition example_parser :: "bool \<Rightarrow> bool \<Rightarrow> fix_parser" where
  "example_parser hide rows = \<lparr>hide_enums = hide, row_lines = rows, fields_elem = Some example_fields\<rparr>"

text \<open>
  An enum entry as the dictionary schema has it: a \<open>value\<close> element with an \<open>enum\<close> code
  and a \<open>description\<close>.
\<close>

definition enum_entry :: "element \<Rightarrow> (string \<times> string) option" where
  "enum_entry c =
     (if tag c = ''value'' then
        (case get c ''enum'' of
           None \<Rightarrow> None
         | Some code \<Rightarrow> (case get c ''description'' of None \<Rightarrow> None | Some d \<Rightarrow> Some (code, d)))
      else None)"

text \<open>The marker for a value that is none of the codes.\<close>

definition no_match :: string where
  "no_match = '' (ERROR: NO MATCHING ENUM. CHECK DICTIONARY)''"

text \<open>
  A dictionary that gives no \<open>fields\<close> section: the document cannot be parsed, or its
  root has no child \<open>fields\<close>.
\<close>

definition dictionary_unusable :: "document \<Rightarrow> bool" where
  "dictionary_unusable doc =
     (case doc of Unparsable msg \<Rightarrow> True | Parsed root \<Rightarrow> find_child ''fields'' root = None)"

text \<open>
  The exception of \<^verbatim>\<open>self.fields.find(path).get("name")\<close> for a result of \<open>find\<close>: the
  library's own, or that of \<open>get\<close> on \<open>None\<close>; none when an element is found.
\<close>

definition lookup_error :: "py_error + element option \<Rightarrow> py_error option" where
  "lookup_error found =
     (case found of
        Inl e \<Rightarrow> Some e
      | Inr None \<Rightarrow> Some (NoneHasNoAttribute ''get'')
      | Inr (Some field) \<Rightarrow> None)"

text \<open>The pass of the loop for a token ends in an exception.\<close>

definition pass_raises :: "path_reader \<Rightarrow> fix_parser \<Rightarrow> string \<Rightarrow> bool" where
  "pass_raises lib self tag_str =
     (let pair = py_split CHR ''='' tag_str in
      length pair \<noteq> 1 \<and> isl (snd (make_readable_body lib self (pair ! 0) (pair ! 1))))"

section \<open>Basic facts\<close>

lemma written_simps [simp]:
  "written [] = []"
  "written (Write s # tr) = s # written tr"
  "written (Print s # tr) = written tr"
  "written (tr @ tr') = written tr @ written tr'"
  by (simp_all add: written_def)

lemma printed_simps [simp]:
  "printed [] = []"
  "printed (Write s # tr) = printed tr"
  "printed (Print s # tr) = s # printed tr"
  "printed (tr @ tr') = printed tr @ printed tr'"
  by (simp_all add: printed_def)

lemma append_n_concat: "append_n n piece s = s @ concat (replicate n piece)"
proof (induction n arbitrary: s)
  case 0
  show ?case by simp
next
  case (Suc n)
  have "concat (replicate (Suc n) piece) = piece @ concat (replicate n piece)"
    by simp
  with Suc show ?case by simp
qed

lemma append_n_char: "append_n n [c] s = s @ replicate n c"
  by (induction n arbitrary: s) (simp_all add: replicate_app_Cons_same)

lemma build_row_separator_eq:
  "build_row_separator =
     replicate 5 CHR ''-'' @ ''-+-'' @ replicate 23 CHR ''-'' @ ''-+-'' @ replicate 65 CHR ''-'' @ [CHR 0x0A]"
  by (simp add: build_row_separator_def tag_column_length_def field_name_column_length_def
        trailing_column_length_def append_n_char)

lemma build_msg_separator_eq: "build_msg_separator = replicate 100 CHR ''.'' @ [CHR 0x0A]"
  by (simp add: build_msg_separator_def msg_separator_length_def append_n_char)

lemma py_split_nonempty: "py_split c s \<noteq> []"
  by (induction s) auto

lemma py_split_no_sep: "c \<notin> set s \<Longrightarrow> py_split c s = [s]"
  by (induction s) auto

lemma py_split_append: "c \<notin> set a \<Longrightarrow> py_split c (a @ c # b) = a # py_split c b"
  by (induction a) auto

lemma py_split_tokens: "t \<in> set (py_split c s) \<Longrightarrow> c \<notin> set t"
proof (induction s arbitrary: t)
  case Nil
  then show ?case by simp
next
  case (Cons x xs)
  show ?case
  proof (cases "x = c")
    case True
    with Cons show ?thesis by auto
  next
    case False
    obtain p ps where ps: "py_split c xs = p # ps"
      using py_split_nonempty [of c xs] by (cases "py_split c xs") auto
    with Cons False show ?thesis by auto
  qed
qed

lemma py_split_join: "hd (py_split c s) @ concat (map ((#) c) (tl (py_split c s))) = s"
proof (induction s)
  case Nil
  show ?case by simp
next
  case (Cons x xs)
  obtain p ps where ps: "py_split c xs = p # ps"
    using py_split_nonempty [of c xs] by (cases "py_split c xs") auto
  with Cons show ?case by simp
qed

lemma py_split_single: "(\<exists>p. py_split c s = [p]) = (c \<notin> set s)"
proof
  assume "\<exists>p. py_split c s = [p]"
  then obtain p where p: "py_split c s = [p]" ..
  have "p = s" using py_split_join [of c s] p by simp
  with p py_split_tokens [of p c s] show "c \<notin> set s" by simp
next
  assume "c \<notin> set s"
  then show "\<exists>p. py_split c s = [p]" by (simp add: py_split_no_sep)
qed

lemma py_split_length_one: "(length (py_split c s) = 1) = (c \<notin> set s)"
proof -
  have "(length (py_split c s) = 1) = (\<exists>p. py_split c s = [p])"
    by (cases "py_split c s") auto
  then show ?thesis by (simp add: py_split_single)
qed

lemma py_split_pair:
  "c \<in> set s \<Longrightarrow> \<exists>a b others. py_split c s = a # b # others"
  using py_split_length_one [of c s] py_split_nonempty [of c s]
  by (cases "py_split c s"; cases "tl (py_split c s)") auto

lemma make_readable_loop_skip:
  "CHR ''='' \<notin> set t \<Longrightarrow> make_readable_loop lib self (t # ts) = make_readable_loop lib self ts"
  by (simp add: py_split_no_sep)

lemma make_readable_loop_pair:
  "py_split CHR ''='' t = tag_number # tag_value # others \<Longrightarrow>
   make_readable_loop lib self (t # ts) =
     (case make_readable_body lib self tag_number tag_value of
        (tr, Inl e) \<Rightarrow>
          tr @ [Print (''tag number '' @ tag_number @ '' readable Exception :- '' @ str_of_error e)]
      | (tr, Inr line) \<Rightarrow>
          tr @ [Write line] @ (if row_lines self then [Write build_row_separator] else [])
          @ make_readable_loop lib self ts)"
  by (simp split: prod.splits sum.splits)

lemma make_readable_loop_fail:
  "py_split CHR ''='' t = tag_number # tag_value # others \<Longrightarrow>
   make_readable_body lib self tag_number tag_value = (tr, Inl e) \<Longrightarrow>
   make_readable_loop lib self (t # ts) =
     tr @ [Print (''tag number '' @ tag_number @ '' readable Exception :- '' @ str_of_error e)]"
  by (simp add: make_readable_loop_pair)

lemma make_readable_loop_line:
  "py_split CHR ''='' t = tag_number # tag_value # others \<Longrightarrow>
   make_readable_body lib self tag_number tag_value = (tr, Inr line) \<Longrightarrow>
   make_readable_loop lib self (t # ts) =
     tr @ [Write line] @ (if row_lines self then [Write build_row_separator] else [])
     @ make_readable_loop lib self ts"
  by (simp add: make_readable_loop_pair)

lemma make_readable_loop_filter:
  "make_readable_loop lib self (filter (\<lambda>t. CHR ''='' \<in> set t) tags) = make_readable_loop lib self tags"
proof (induction tags)
  case Nil
  show ?case by simp
next
  case (Cons t ts)
  show ?case
  proof (cases "CHR ''='' \<in> set t")
    case False
    with Cons show ?thesis by (simp add: py_split_no_sep)
  next
    case True
    with Cons show ?thesis
      by (simp add: Let_def py_split_length_one split: prod.splits sum.splits)
  qed
qed

lemma get_enum_str_written: "written (fst (get_enum_str lib self tn tv)) = []"
  by (simp add: get_enum_str_def split: sum.splits)

lemma make_readable_body_written: "written (fst (make_readable_body lib self tn tv)) = []"
  using get_enum_str_written [of lib self tn tv]
  by (auto simp: make_readable_body_def Let_def split: option.splits prod.splits sum.splits)

lemma make_readable_body_line:
  "make_readable_body lib self tn tv = (tr, Inr line) \<Longrightarrow> CHR ''|'' \<in> set line"
  by (auto simp: make_readable_body_def Let_def split: option.splits prod.splits if_splits sum.splits)

lemma get_enum_str_row_lines:
  "get_enum_str lib (self\<lparr>row_lines := b\<rparr>) tn tv = get_enum_str lib self tn tv"
  by (simp add: get_enum_str_def get_enum_str_body_def)

lemma make_readable_body_row_lines:
  "make_readable_body lib (self\<lparr>row_lines := b\<rparr>) tn tv = make_readable_body lib self tn tv"
  by (simp add: make_readable_body_def Let_def get_enum_str_row_lines split: option.splits sum.splits)

lemma make_readable_loop_abort:
  assumes "py_split CHR ''='' t = tn # tv # others" "make_readable_body lib self tn tv = (tr, Inl e)"
  shows "make_readable_loop lib self (pre @ t # post) = make_readable_loop lib self (pre @ [t])"
proof (induction pre)
  case Nil
  from assms show ?case by (simp add: make_readable_loop_fail)
next
  case (Cons p ps)
  then show ?case by (simp add: Let_def split: prod.splits sum.splits)
qed

lemma make_readable_loop_abort_written:
  assumes "py_split CHR ''='' t = tn # tv # others" "make_readable_body lib self tn tv = (tr, Inl e)"
  shows "written (make_readable_loop lib self (pre @ t # post)) = written (make_readable_loop lib self pre)"
proof (induction pre)
  case Nil
  from assms make_readable_body_written [of lib self tn tv] show ?case
    by (simp add: make_readable_loop_fail)
next
  case (Cons p ps)
  then show ?case by (simp add: Let_def split: prod.splits sum.splits)
qed

lemma file_lines_readline:
  "s \<noteq> [] \<Longrightarrow> file_lines s = fst (readline s) # file_lines (snd (readline s))"
proof (induction s)
  case Nil
  then show ?case by simp
next
  case (Cons c cs)
  then show ?case by (cases cs) (auto split: list.splits)
qed

lemma readline_nonempty: "s \<noteq> [] \<Longrightarrow> fst (readline s) \<noteq> []"
  by (cases s) auto

lemma parse_input_loop_message:
  "is_message line \<Longrightarrow>
   parse_input_loop lib self line input =
     make_readable lib self (py_split (CHR 0x01) (strip line)) @ [Write build_msg_separator]
     @ parse_input_file lib self input"
  by (subst parse_input_loop.simps) (auto simp: is_message_def parse_input_file_def strip_def Let_def)

lemma parse_input_loop_skip:
  "line \<noteq> [] \<Longrightarrow> \<not> is_message line \<Longrightarrow>
   parse_input_loop lib self line input = parse_input_file lib self input"
  by (subst parse_input_loop.simps) (auto simp: is_message_def parse_input_file_def Let_def)

lemma parse_input_file_lines:
  "parse_input_file lib self input = concat (map (line_block lib self) (file_lines input))"
proof (induction "length input" arbitrary: input rule: less_induct)
  case less
  show ?case
  proof (cases "input = []")
    case True
    then show ?thesis
      by (simp add: parse_input_file_def parse_input_loop.simps [of lib self "[]"])
  next
    case False
    let ?l = "fst (readline input)" and ?r = "snd (readline input)"
    have l: "?l \<noteq> []" using False by (rule readline_nonempty)
    have "length ?l + length ?r = length input" by (induction input) auto
    with l have "length ?r < length input" by (cases ?l) auto
    then have IH: "parse_input_file lib self ?r = concat (map (line_block lib self) (file_lines ?r))"
      by (rule less)
    have "parse_input_file lib self input = parse_input_loop lib self ?l ?r"
      by (simp add: parse_input_file_def)
    also have "\<dots> = line_block lib self ?l @ parse_input_file lib self ?r"
      using l by (cases "is_message ?l")
        (simp_all add: line_block_def parse_input_loop_message parse_input_loop_skip)
    finally show ?thesis using IH False by (simp add: file_lines_readline)
  qed
qed

lemma get_enum_str_Some: "get_enum_str lib self tn tv = (tr, Some ann) \<Longrightarrow> tr = []"
  by (auto simp: get_enum_str_def split: sum.splits)

lemma make_readable_body_resolved:
  assumes "fields_elem self = Some fs"
    and "find_child_attr lib ''field'' ''number'' tn fs = Inr (Some field)"
    and "get field ''name'' = Some nm"
    and "(if hide_enums self then Some [] else snd (get_enum_str lib self tn tv)) = Some ann"
  shows "make_readable_body lib self tn tv =
           ([], Inr (pad_right 5 tn @ '' | '' @ pad_right 23 nm @ '' | '' @ tv @ ann @ [CHR 0x0A]))"
proof -
  have en: "(if \<not> hide_enums self then get_enum_str lib self tn tv else ([], Some [])) = ([], Some ann)"
  proof (cases "hide_enums self")
    case True
    with assms(4) show ?thesis by simp
  next
    case False
    obtain tr r where g: "get_enum_str lib self tn tv = (tr, r)"
      by (cases "get_enum_str lib self tn tv")
    with False assms(4) have "r = Some ann" by simp
    with g get_enum_str_Some [of lib self tn tv tr ann] False show ?thesis by simp
  qed
  have "make_readable_body lib self tn tv =
          ([], Inr (tn @ replicate (5 - length tn) CHR '' '' @ '' | ''
                    @ nm @ replicate (23 - length nm) CHR '' '' @ '' | '' @ tv @ ann @ [CHR 0x0A]))"
    using assms(1-3) en
    by (auto simp: make_readable_body_def Let_def append_n_char tag_column_length_def
          field_name_column_length_def nat_diff_distrib')
  then show ?thesis
    by (simp add: pad_right_def)
qed

lemma enum_entry_Some:
  "enum_entry c = Some (code, d) \<Longrightarrow>
     tag c = ''value'' \<and> get c ''enum'' = Some code \<and> get c ''description'' = Some d"
  by (auto simp: enum_entry_def split: if_splits option.splits)

lemma find_meaning:
  "map enum_entry cs = map Some entries \<Longrightarrow>
   (case List.find (\<lambda>c. tag c = ''value'' \<and> get c ''enum'' = Some tv) cs of
      Some meaning \<Rightarrow>
        (case get meaning ''description'' of None \<Rightarrow> Inl ConcatNone | Some d \<Rightarrow> Inr ('' ('' @ d @ '')''))
    | None \<Rightarrow> Inr no_match)
   = Inr (case map_of entries tv of Some d \<Rightarrow> '' ('' @ d @ '')'' | None \<Rightarrow> no_match)"
proof (induction cs arbitrary: entries)
  case Nil
  then show ?case by simp
next
  case (Cons c cs)
  then obtain code d es where es: "entries = (code, d) # es"
    and c: "enum_entry c = Some (code, d)" and rest: "map enum_entry cs = map Some es"
    by (cases entries) auto
  from enum_entry_Some [OF c] Cons.IH [OF rest] show ?case
    by (simp add: es)
qed

lemma enum_loop_entries:
  "map enum_entry cs = map Some entries \<Longrightarrow>
   enum_loop cs s = Inr (s @ concat (map (\<lambda>(code, d). code @ '' : '' @ d @ '', '') entries))"
proof (induction cs arbitrary: entries s)
  case Nil
  then show ?case by simp
next
  case (Cons c cs)
  then obtain code d es where es: "entries = (code, d) # es"
    and c: "enum_entry c = Some (code, d)" and rest: "map enum_entry cs = map Some es"
    by (cases entries) auto
  from enum_entry_Some [OF c] Cons.IH [OF rest] show ?case
    by (simp add: es)
qed

lemma enum_padding: "append_n (nat (trailing_column_length - int (length s))) '' '' s = pad_right 65 s"
  by (auto simp: append_n_char pad_right_def trailing_column_length_def nat_diff_distrib')

lemma make_readable_body_unknown:
  "fields_elem self = Some fs \<Longrightarrow>
   find_child_attr lib ''field'' ''number'' tn fs = Inr None \<Longrightarrow>
   make_readable_body lib self tn tv = ([], Inl (NoneHasNoAttribute ''get''))"
  by (simp add: make_readable_body_def)

lemma separators_no_bar:
  "CHR ''|'' \<notin> set build_row_separator"
  "CHR ''|'' \<notin> set build_msg_separator"
  "build_msg_separator \<noteq> build_row_separator"
  by code_simp+

lemma make_readable_loop_cases:
  obtains "CHR ''='' \<notin> set t"
      "make_readable_loop lib self (t # ts) = make_readable_loop lib self ts"
  | tn tv tr e where
      "make_readable_body lib self tn tv = (tr, Inl e)"
      "make_readable_loop lib self (t # ts) =
         tr @ [Print (''tag number '' @ tn @ '' readable Exception :- '' @ str_of_error e)]"
  | tn tv tr line where
      "make_readable_body lib self tn tv = (tr, Inr line)"
      "make_readable_loop lib self (t # ts) =
         tr @ [Write line] @ (if row_lines self then [Write build_row_separator] else [])
         @ make_readable_loop lib self ts"
proof (cases "CHR ''='' \<in> set t")
  case False
  then show ?thesis using that(1) make_readable_loop_skip by blast
next
  case True
  then obtain tn tv others where sp: "py_split CHR ''='' t = tn # tv # others"
    using py_split_pair by blast
  obtain tr r where b: "make_readable_body lib self tn tv = (tr, r)"
    by (cases "make_readable_body lib self tn tv")
  show ?thesis
  proof (cases r)
    case (Inl e)
    with b make_readable_loop_fail [OF sp] that(2) show ?thesis by blast
  next
    case (Inr line)
    with b make_readable_loop_line [OF sp] that(3) show ?thesis by blast
  qed
qed

lemma make_readable_loop_writes:
  "s \<in> set (written (make_readable_loop lib self tags)) \<Longrightarrow>
     s = build_row_separator \<or> CHR ''|'' \<in> set s"
proof (induction tags)
  case Nil
  then show ?case by simp
next
  case (Cons t ts)
  show ?case
  proof (cases rule: make_readable_loop_cases [of t lib self ts])
    case 1
    with Cons show ?thesis by simp
  next
    case (2 tn tv tr e)
    with Cons.prems make_readable_body_written [of lib self tn tv] show ?thesis by simp
  next
    case (3 tn tv tr line)
    with Cons make_readable_body_written [of lib self tn tv] make_readable_body_line [OF 3(1)]
    show ?thesis by (auto split: if_splits)
  qed
qed

lemma make_readable_no_msg_separator:
  "build_msg_separator \<notin> set (written (make_readable lib self tags))"
  using make_readable_loop_writes [of build_msg_separator lib self tags] separators_no_bar
  by (auto simp: make_readable_def)

lemma make_readable_loop_plain_lines:
  "\<not> row_lines self \<Longrightarrow> s \<in> set (written (make_readable_loop lib self tags)) \<Longrightarrow> CHR ''|'' \<in> set s"
proof (induction tags)
  case Nil
  then show ?case by simp
next
  case (Cons t ts)
  show ?case
  proof (cases rule: make_readable_loop_cases [of t lib self ts])
    case 1
    with Cons show ?thesis by simp
  next
    case (2 tn tv tr e)
    with Cons.prems make_readable_body_written [of lib self tn tv] show ?thesis by simp
  next
    case (3 tn tv tr line)
    with Cons make_readable_body_written [of lib self tn tv] make_readable_body_line [OF 3(1)]
    show ?thesis by auto
  qed
qed

lemma make_readable_loop_row_lines:
  assumes "row_lines self"
  shows "written (make_readable_loop lib self tags) =
     concat (map (\<lambda>l. [l, build_row_separator])
       (written (make_readable_loop lib (self\<lparr>row_lines := False\<rparr>) tags)))"
proof (induction tags)
  case Nil
  show ?case by simp
next
  case (Cons t ts)
  let ?plain = "self\<lparr>row_lines := False\<rparr>"
  show ?case
  proof (cases "CHR ''='' \<in> set t")
    case False
    with Cons show ?thesis by (simp add: make_readable_loop_skip del: make_readable_loop.simps)
  next
    case True
    then obtain tn tv others where sp: "py_split CHR ''='' t = tn # tv # others"
      using py_split_pair by blast
    obtain tr r where b: "make_readable_body lib self tn tv = (tr, r)"
      by (cases "make_readable_body lib self tn tv")
    then have b': "make_readable_body lib ?plain tn tv = (tr, r)"
      by (simp add: make_readable_body_row_lines)
    have tr: "written tr = []"
      using make_readable_body_written [of lib self tn tv] b by simp
    show ?thesis
    proof (cases r)
      case (Inl e)
      with b b' tr show ?thesis
        by (simp add: make_readable_loop_fail [OF sp] del: make_readable_loop.simps)
    next
      case (Inr line)
      with b b' tr Cons assms show ?thesis
        by (simp add: make_readable_loop_line [OF sp] del: make_readable_loop.simps)
    qed
  qed
qed

lemma written_concat: "written (concat trs) = concat (map written trs)"
  by (induction trs) simp_all

lemma written_line_block:
  "written (line_block lib self line) =
     (if is_message line
      then written (make_readable lib self (py_split (CHR 0x01) (strip line))) @ [build_msg_separator]
      else [])"
  by (simp add: line_block_def)

lemma written_parse_input_file:
  "written (parse_input_file lib self input) =
     concat (map (\<lambda>line. written (line_block lib self line)) (file_lines input))"
  by (simp add: parse_input_file_lines written_concat comp_def)

lemma count_msg_separator_block:
  "count_list (written (line_block lib self line)) build_msg_separator = (if is_message line then 1 else 0)"
  using make_readable_no_msg_separator [of lib self "py_split (CHR 0x01) (strip line)"]
  by (simp add: written_line_block)

lemma count_msg_separator_blocks:
  "count_list (concat (map (\<lambda>line. written (line_block lib self line)) ls)) build_msg_separator
     = length (filter is_message ls)"
  by (induction ls) (simp_all add: count_msg_separator_block del: count_list.simps)

lemma make_readable_loop_no_pairs:
  "CHR ''='' \<notin> set (concat tags) \<Longrightarrow> make_readable_loop lib self tags = []"
proof -
  assume "CHR ''='' \<notin> set (concat tags)"
  then have "filter (\<lambda>t. CHR ''='' \<in> set t) tags = []"
    by (induction tags) auto
  with make_readable_loop_filter [of lib self tags] show ?thesis
    by simp
qed

lemma init_fields_loop_none:
  "List.find (\<lambda>c. tag c = ''fields'') cs = None \<Longrightarrow> init_fields_loop cs self = self"
  by (induction cs arbitrary: self) (auto split: if_splits)

lemma init_fields_unusable:
  "dictionary_unusable doc \<Longrightarrow> snd (init_fields self doc) = self"
  by (cases doc) (simp_all add: dictionary_unusable_def init_fields_def find_child_def init_fields_loop_none)

lemma make_readable_body_no_fields:
  "fields_elem self = None \<Longrightarrow>
   make_readable_body lib self tn tv = ([], Inl (NoneHasNoAttribute ''find''))"
  by (simp add: make_readable_body_def)

lemma make_readable_loop_no_fields:
  "fields_elem self = None \<Longrightarrow> written (make_readable_loop lib self tags) = []"
proof (induction tags)
  case Nil
  show ?case by simp
next
  case (Cons t ts)
  show ?case
  proof (cases rule: make_readable_loop_cases [of t lib self ts])
    case 1
    with Cons show ?thesis by simp
  next
    case (2 tn tv tr e)
    with make_readable_body_written [of lib self tn tv] show ?thesis by simp
  next
    case (3 tn tv tr line)
    with make_readable_body_no_fields [OF Cons.prems, of lib tn tv] show ?thesis by simp
  qed
qed

lemma make_readable_body_lookup_error:
  "fields_elem self = Some fs \<Longrightarrow>
   lookup_error (find_child_attr lib ''field'' ''number'' tn fs) = Some e \<Longrightarrow>
   make_readable_body lib self tn tv = ([], Inl e)"
  by (auto simp: make_readable_body_def lookup_error_def split: sum.splits option.splits)

lemma lookup_error_plain:
  "xpath_plain t \<Longrightarrow>
   (lookup_error (find_child_attr lib ''field'' ''number'' t d) = Some (NoneHasNoAttribute ''get''))
     = (\<not> list_ex (\<lambda>c. tag c = ''field'' \<and> get c ''number'' = Some t) (children d))"
proof -
  let ?P = "\<lambda>c. tag c = ''field'' \<and> get c ''number'' = Some t"
  assume plain: "xpath_plain t"
  have "(List.find ?P (children d) = None) = (\<not> list_ex ?P (children d))"
    by (auto simp: find_None_iff list_ex_iff)
  with plain show ?thesis
    by (cases "List.find ?P (children d)") (simp_all add: find_child_attr_def lookup_error_def)
qed

lemma make_readable_loop_append:
  "list_all (\<lambda>t. \<not> pass_raises lib self t) pre \<Longrightarrow>
   make_readable_loop lib self (pre @ rest) =
     make_readable_loop lib self pre @ make_readable_loop lib self rest"
proof (induction pre)
  case Nil
  show ?case by simp
next
  case (Cons t ts)
  then have ok: "\<not> pass_raises lib self t"
    and IH: "make_readable_loop lib self (ts @ rest) =
               make_readable_loop lib self ts @ make_readable_loop lib self rest"
    by simp_all
  show ?case
  proof (cases "length (py_split CHR ''='' t) = 1")
    case True
    with IH show ?thesis by simp
  next
    case False
    with ok obtain tr line where
      "make_readable_body lib self (py_split CHR ''='' t ! 0) (py_split CHR ''='' t ! 1) = (tr, Inr line)"
      by (cases "make_readable_body lib self (py_split CHR ''='' t ! 0) (py_split CHR ''='' t ! 1)";
          cases "snd (make_readable_body lib self (py_split CHR ''='' t ! 0) (py_split CHR ''='' t ! 1))")
         (auto simp: pass_raises_def Let_def)
    with False IH show ?thesis by (simp add: Let_def)
  qed
qed

text \<open>
  The annotation of a value without an apostrophe. Take a field that the dictionary
  declares with enum entries: its children are \<open>value\<close> elements with an \<open>enum\<close> code and a
  \<open>description\<close> each, \<open>entries\<close> in their order, at least one. Then \<open>get_enum_str\<close> prints
  nothing and returns: \<open>" (" + description + ")"\<close> for the first entry whose code is the
  value, or the marker \<open>no_match\<close> when no code is the value; right-padded with spaces to
  width 65 (nothing is added to a longer text); then \<open>code : description, \<close> for every
  entry, in order, whether or not the value matched. \<open>make_readable\<close> calls \<open>get_enum_str\<close>
  exactly when \<open>hide_enums\<close> is false; \<open>get_enum_str\<close> itself does not read the flag.
\<close>

lemma enum_annotation_plain:
  assumes "fields_elem self = Some fs"
    and "find_child_attr lib ''field'' ''number'' tag_number fs = Inr (Some field)"
    and "map enum_entry (children field) = map Some entries"
    and "entries \<noteq> []"
    and "xpath_plain tag_value"
  shows "get_enum_str lib self tag_number tag_value =
           ([], Some (pad_right 65 (case map_of entries tag_value of
                                      Some description \<Rightarrow> '' ('' @ description @ '')''
                                    | None \<Rightarrow> no_match)
                      @ concat (map (\<lambda>(code, description). code @ '' : '' @ description @ '', '') entries)))"
proof -
  obtain c cs where cs: "children field = c # cs"
    using assms(3,4) by (cases "children field") auto
  with assms(3) obtain code d where "enum_entry c = Some (code, d)"
    by (cases entries) auto
  then have "tag c = ''value''"
    by (simp add: enum_entry_Some)
  then have first: "find_child ''value'' field = Some c"
    by (simp add: find_child_def cs)
  have fa: "find_child_attr lib ''value'' ''enum'' tag_value field
          = Inr (List.find (\<lambda>c. tag c = ''value'' \<and> get c ''enum'' = Some tag_value) (children field))"
    using assms(5) by (simp add: find_child_attr_def)
  have meaning: "enum_meaning lib field tag_value =
      Inr (case map_of entries tag_value of Some d \<Rightarrow> '' ('' @ d @ '')'' | None \<Rightarrow> no_match)"
    unfolding enum_meaning_def first fa no_match_def
    using find_meaning [OF assms(3), of tag_value, unfolded no_match_def]
    by simp
  have "children field \<noteq> []"
    by (simp add: cs)
  then have "get_enum_str_body lib self tag_number tag_value =
      Inr (pad_right 65 (case map_of entries tag_value of Some d \<Rightarrow> '' ('' @ d @ '')'' | None \<Rightarrow> no_match)
           @ concat (map (\<lambda>(code, d). code @ '' : '' @ d @ '', '') entries))"
    using assms(1,2) meaning
    by (simp add: get_enum_str_body_def Let_def enum_padding enum_loop_entries [OF assms(3)])
  then show ?thesis
    by (simp add: get_enum_str_def)
qed

lemma enum_annotation_plain_example:
  "fields_elem (example_parser False False) = Some example_fields
   \<and> find_child_attr strict_lib ''field'' ''number'' ''54'' example_fields = Inr (Some example_side)
   \<and> map enum_entry (children example_side) = map Some [(''1'', ''BUY''), (''2'', ''SELL'')]
   \<and> [(''1'', ''BUY''), (''2'', ''SELL'')] \<noteq> []
   \<and> xpath_plain ''2'' \<and> xpath_plain ''9''
   \<and> get_enum_str strict_lib (example_parser False False) ''54'' ''2''
       = ([], Some ('' (SELL)'' @ replicate 58 CHR '' '' @ ''1 : BUY, 2 : SELL, ''))
   \<and> get_enum_str strict_lib (example_parser False False) ''54'' ''9''
       = ([], Some (no_match @ replicate 21 CHR '' '' @ ''1 : BUY, 2 : SELL, ''))"
proof -
  let ?self = "example_parser False False"
  let ?entries = "[(''1'', ''BUY''), (''2'', ''SELL'')]"
  have h1: "fields_elem ?self = Some example_fields"
    by (simp add: example_parser_def)
  have h2: "find_child_attr strict_lib ''field'' ''number'' ''54'' example_fields = Inr (Some example_side)"
    by code_simp
  have h3: "map enum_entry (children example_side) = map Some ?entries"
    by code_simp
  have h4: "?entries \<noteq> []"
    by simp
  have p2: "xpath_plain ''2''" and p9: "xpath_plain ''9''"
    by (simp_all add: xpath_plain_def)
  have "get_enum_str strict_lib ?self ''54'' ''2'' =
           ([], Some (pad_right 65 (case map_of ?entries ''2'' of
                                      Some description \<Rightarrow> '' ('' @ description @ '')''
                                    | None \<Rightarrow> no_match)
                      @ concat (map (\<lambda>(code, description). code @ '' : '' @ description @ '', '') ?entries)))"
    using enum_annotation_plain [OF h1 h2 h3 h4 p2] .
  also have "\<dots> = ([], Some ('' (SELL)'' @ replicate 58 CHR '' '' @ ''1 : BUY, 2 : SELL, ''))"
    by code_simp
  finally have c2: "get_enum_str strict_lib ?self ''54'' ''2''
       = ([], Some ('' (SELL)'' @ replicate 58 CHR '' '' @ ''1 : BUY, 2 : SELL, ''))" .
  have "get_enum_str strict_lib ?self ''54'' ''9'' =
           ([], Some (pad_right 65 (case map_of ?entries ''9'' of
                                      Some description \<Rightarrow> '' ('' @ description @ '')''
                                    | None \<Rightarrow> no_match)
                      @ concat (map (\<lambda>(code, description). code @ '' : '' @ description @ '', '') ?entries)))"
    using enum_annotation_plain [OF h1 h2 h3 h4 p9] .
  also have "\<dots> = ([], Some (no_match @ replicate 21 CHR '' '' @ ''1 : BUY, 2 : SELL, ''))"
    by code_simp
  finally have c9: "get_enum_str strict_lib ?self ''54'' ''9''
       = ([], Some (no_match @ replicate 21 CHR '' '' @ ''1 : BUY, 2 : SELL, ''))" .
  from h1 h2 h3 h4 p2 p9 c2 c9 show ?thesis
    by blast
qed

section \<open>The claims\<close>

subsection \<open>C7: tokens\<close>

text \<open>
  Claim C7. A line that is processed is stripped and split at the control character
  U+0001 into its tokens, in order: the tokens are never none, no token holds the
  delimiter, and joining them with the delimiter gives the text back. A token without
  \<open>=\<close> is passed over: it causes no effect at all, so the effects of \<open>make_readable\<close> are
  those for the tokens that hold a \<open>=\<close>. In particular an empty token, as a delimiter at
  the end of the line or two delimiters in a row leave it, is passed over.
\<close>

theorem tokenize_and_skip:
  "(is_message line \<longrightarrow>
      parse_input_loop lib self line input =
        make_readable lib self (py_split (CHR 0x01) (strip line)) @ [Write build_msg_separator]
        @ parse_input_file lib self input)
   \<and> py_split c l \<noteq> []
   \<and> c \<notin> set (concat (py_split c l))
   \<and> hd (py_split c l) @ concat (map ((#) c) (tl (py_split c l))) = l
   \<and> make_readable lib self tags = make_readable lib self (filter (\<lambda>t. CHR ''='' \<in> set t) tags)
   \<and> make_readable lib self (pre @ [] # post) = make_readable lib self (pre @ post)"
proof -
  have "c \<notin> set (concat (py_split c l))"
    using py_split_tokens [of _ c l] by auto
  moreover have "make_readable lib self (pre @ [] # post) = make_readable lib self (pre @ post)"
    using make_readable_loop_filter [of lib self "pre @ [] # post"]
          make_readable_loop_filter [of lib self "pre @ post"]
    by (simp add: make_readable_def)
  ultimately show ?thesis
    by (simp add: parse_input_loop_message py_split_nonempty py_split_join
          make_readable_def make_readable_loop_filter)
qed

theorem tokenize_and_skip_witness:
  "is_message (''54=1'' @ [CHR 0x01] @ ''junk'' @ [CHR 0x01, CHR 0x0A])
   \<and> py_split (CHR 0x01) (strip (''54=1'' @ [CHR 0x01] @ ''junk'' @ [CHR 0x01, CHR 0x0A])) = [''54=1'', ''junk'', []]
   \<and> parse_input_loop strict_lib (example_parser True False) (''54=1'' @ [CHR 0x01] @ ''junk'' @ [CHR 0x01, CHR 0x0A]) []
       = [Write (''54    | Side                    | 1'' @ [CHR 0x0A]), Write build_msg_separator]"
proof -
  let ?line = "''54=1'' @ [CHR 0x01] @ ''junk'' @ [CHR 0x01, CHR 0x0A]"
  have msg: "is_message ?line"
    by code_simp
  have toks: "py_split (CHR 0x01) (strip ?line) = [''54=1'', ''junk'', []]"
    by code_simp
  have "parse_input_loop strict_lib (example_parser True False) ?line [] =
          make_readable strict_lib (example_parser True False) (py_split (CHR 0x01) (strip ?line))
          @ [Write build_msg_separator] @ parse_input_file strict_lib (example_parser True False) []"
    using tokenize_and_skip [where line = ?line and lib = strict_lib
        and self = "example_parser True False" and input = "[]"] msg
    by blast
  moreover have "make_readable strict_lib (example_parser True False) (py_split (CHR 0x01) (strip ?line))
          @ [Write build_msg_separator] @ parse_input_file strict_lib (example_parser True False) []
        = [Write (''54    | Side                    | 1'' @ [CHR 0x0A]), Write build_msg_separator]"
    by code_simp
  ultimately show ?thesis using msg toks by simp
qed

subsection \<open>C8: the delimiter of the line split\<close>

text \<open>
  Claim C8 says that the delimiter of the line split is empty or absent, so that the
  split changes nothing. The delimiter in the source is the one character U+0001
  (invisible in most editors), and a line that holds it is split: the line below gives
  two tokens and two field lines.
\<close>

theorem split_not_noop_counterexample:
  "py_split (CHR 0x01) (strip (''54=1'' @ [CHR 0x01] @ ''55=IBM'')) = [''54=1'', ''55=IBM'']
   \<and> py_split (CHR 0x01) (strip (''54=1'' @ [CHR 0x01] @ ''55=IBM'')) \<noteq> [''54=1'' @ [CHR 0x01] @ ''55=IBM'']
   \<and> written (parse_input_file strict_lib (example_parser True False) (''54=1'' @ [CHR 0x01] @ ''55=IBM''))
       = [''54    | Side                    | 1'' @ [CHR 0x0A],
          ''55    | Symbol                  | IBM'' @ [CHR 0x0A],
          build_msg_separator]"
  by code_simp

text \<open>
  Claim C8, amended. The line is split at the control character U+0001. Splitting leaves
  a line as its only token exactly when the line does not hold that character; a line
  that holds it is cut at its first occurrence, and so on for the rest.
\<close>

theorem split_at_soh:
  "(is_message line \<longrightarrow>
      parse_input_loop lib self line input =
        make_readable lib self (py_split (CHR 0x01) (strip line)) @ [Write build_msg_separator]
        @ parse_input_file lib self input)
   \<and> (py_split (CHR 0x01) l = [l]) = (CHR 0x01 \<notin> set l)
   \<and> (CHR 0x01 \<notin> set a \<longrightarrow> py_split (CHR 0x01) (a @ CHR 0x01 # b) = a # py_split (CHR 0x01) b)"
proof -
  have "(py_split (CHR 0x01) l = [l]) = (CHR 0x01 \<notin> set l)"
  proof
    assume "py_split (CHR 0x01) l = [l]"
    then have "\<exists>p. py_split (CHR 0x01) l = [p]" by blast
    then show "CHR 0x01 \<notin> set l" by (simp add: py_split_single)
  next
    assume "CHR 0x01 \<notin> set l"
    then show "py_split (CHR 0x01) l = [l]" by (rule py_split_no_sep)
  qed
  then show ?thesis
    by (simp add: parse_input_loop_message py_split_append)
qed

theorem split_at_soh_witness:
  "is_message (''54=1'' @ [CHR 0x01] @ ''55=IBM'' @ [CHR 0x0A])
   \<and> CHR 0x01 \<notin> set ''54=1''
   \<and> py_split (CHR 0x01) (''54=1'' @ CHR 0x01 # ''55=IBM'') = [''54=1'', ''55=IBM'']
   \<and> parse_input_loop strict_lib (example_parser True False) (''54=1'' @ [CHR 0x01] @ ''55=IBM'' @ [CHR 0x0A]) []
       = [Write (''54    | Side                    | 1'' @ [CHR 0x0A]),
          Write (''55    | Symbol                  | IBM'' @ [CHR 0x0A]),
          Write build_msg_separator]"
proof -
  let ?line = "''54=1'' @ [CHR 0x01] @ ''55=IBM'' @ [CHR 0x0A]"
  let ?self = "example_parser True False"
  note inst = split_at_soh [where line = ?line and lib = strict_lib and self = ?self
      and input = "[]" and a = "''54=1''" and b = "''55=IBM''"]
  have msg: "is_message ?line"
    by code_simp
  have a: "CHR 0x01 \<notin> set ''54=1''"
    by simp
  have "py_split (CHR 0x01) (''54=1'' @ CHR 0x01 # ''55=IBM'') = ''54=1'' # py_split (CHR 0x01) ''55=IBM''"
    using inst a by blast
  then have sp: "py_split (CHR 0x01) (''54=1'' @ CHR 0x01 # ''55=IBM'') = [''54=1'', ''55=IBM'']"
    by simp
  have "parse_input_loop strict_lib ?self ?line [] =
          make_readable strict_lib ?self (py_split (CHR 0x01) (strip ?line))
          @ [Write build_msg_separator] @ parse_input_file strict_lib ?self []"
    using inst msg by blast
  moreover have "make_readable strict_lib ?self (py_split (CHR 0x01) (strip ?line))
          @ [Write build_msg_separator] @ parse_input_file strict_lib ?self []
        = [Write (''54    | Side                    | 1'' @ [CHR 0x0A]),
           Write (''55    | Symbol                  | IBM'' @ [CHR 0x0A]),
           Write build_msg_separator]"
    by code_simp
  ultimately show ?thesis using msg a sp by simp
qed

subsection \<open>C3: the field line\<close>

text \<open>
  Claim C3. For a token whose pair resolves (the field is found, it has a name, and the
  annotation is computed: empty when enums are hidden, the result of \<open>get_enum_str\<close>
  otherwise), the pass of the loop writes exactly one line and prints nothing: the tag
  number right-padded to width 5, \<open>" | "\<close>, the field name right-padded to width 23,
  \<open>" | "\<close>, the raw value, the annotation, a newline. (With row lines, the row separator
  follows.) Padding only appends spaces: a tag number or name at least as long as its
  column is written whole and without padding.
\<close>

theorem field_line_format:
  assumes "py_split CHR ''='' token = tag_number # tag_value # others"
    and "fields_elem self = Some fs"
    and "find_child_attr lib ''field'' ''number'' tag_number fs = Inr (Some field)"
    and "get field ''name'' = Some tag_name"
    and "(if hide_enums self then Some [] else snd (get_enum_str lib self tag_number tag_value))
           = Some annotation"
  shows "make_readable_loop lib self (token # rest) =
           [Write (pad_right 5 tag_number @ '' | '' @ pad_right 23 tag_name @ '' | ''
                   @ tag_value @ annotation @ [CHR 0x0A])]
           @ (if row_lines self then [Write build_row_separator] else [])
           @ make_readable_loop lib self rest
         \<and> length (pad_right 5 tag_number) = max 5 (length tag_number)
         \<and> length (pad_right 23 tag_name) = max 23 (length tag_name)
         \<and> take (length tag_number) (pad_right 5 tag_number) = tag_number
         \<and> take (length tag_name) (pad_right 23 tag_name) = tag_name
         \<and> drop (length tag_number) (pad_right 5 tag_number) = replicate (5 - length tag_number) CHR '' ''
         \<and> drop (length tag_name) (pad_right 23 tag_name) = replicate (23 - length tag_name) CHR '' ''"
proof -
  have "make_readable_loop lib self (token # rest) =
           [Write (pad_right 5 tag_number @ '' | '' @ pad_right 23 tag_name @ '' | ''
                   @ tag_value @ annotation @ [CHR 0x0A])]
           @ (if row_lines self then [Write build_row_separator] else [])
           @ make_readable_loop lib self rest"
    using make_readable_loop_line [OF assms(1) make_readable_body_resolved [OF assms(2-5)]]
    by simp
  then show ?thesis
    by (simp add: pad_right_def)
qed


theorem field_line_format_witness:
  "py_split CHR ''='' ''54=2'' = [''54'', ''2'']
   \<and> fields_elem (example_parser False True) = Some example_fields
   \<and> find_child_attr strict_lib ''field'' ''number'' ''54'' example_fields = Inr (Some example_side)
   \<and> get example_side ''name'' = Some ''Side''
   \<and> (if hide_enums (example_parser False True) then Some []
        else snd (get_enum_str strict_lib (example_parser False True) ''54'' ''2''))
       = Some ('' (SELL)'' @ replicate 58 CHR '' '' @ ''1 : BUY, 2 : SELL, '')
   \<and> make_readable_loop strict_lib (example_parser False True) [''54=2''] =
       [Write (''54    | Side                    | 2 (SELL)'' @ replicate 58 CHR '' ''
               @ ''1 : BUY, 2 : SELL, '' @ [CHR 0x0A]),
        Write build_row_separator]"
proof -
  let ?self = "example_parser False True"
  have h1: "py_split CHR ''='' ''54=2'' = ''54'' # ''2'' # []"
    by code_simp
  have h2: "fields_elem ?self = Some example_fields"
    by (simp add: example_parser_def)
  have h3: "find_child_attr strict_lib ''field'' ''number'' ''54'' example_fields = Inr (Some example_side)"
    by code_simp
  have h4: "get example_side ''name'' = Some ''Side''"
    by code_simp
  have h5: "(if hide_enums ?self then Some [] else snd (get_enum_str strict_lib ?self ''54'' ''2''))
       = Some ('' (SELL)'' @ replicate 58 CHR '' '' @ ''1 : BUY, 2 : SELL, '')"
    by code_simp
  have "make_readable_loop strict_lib ?self [''54=2''] =
           [Write (pad_right 5 ''54'' @ '' | '' @ pad_right 23 ''Side'' @ '' | ''
                   @ ''2'' @ ('' (SELL)'' @ replicate 58 CHR '' '' @ ''1 : BUY, 2 : SELL, '') @ [CHR 0x0A])]
           @ (if row_lines ?self then [Write build_row_separator] else [])
           @ make_readable_loop strict_lib ?self []"
    using field_line_format [OF h1 h2 h3 h4 h5, of "[]"] by blast
  also have "\<dots> =
       [Write (''54    | Side                    | 2 (SELL)'' @ replicate 58 CHR '' ''
               @ ''1 : BUY, 2 : SELL, '' @ [CHR 0x0A]),
        Write build_row_separator]"
    by code_simp
  finally show ?thesis
    using h1 h2 h3 h4 h5 by blast
qed

subsection \<open>C9: a token with more than one \<open>=\<close>\<close>

text \<open>
  Claim C9. \<^verbatim>\<open>pair[1]\<close> of a token \<open>a=b=c\<close> is \<open>b\<close>, the text between the first and the second
  \<open>=\<close>: the loop does for \<open>a=b=c\<close> exactly what it does for \<open>a=b\<close>, so what follows the
  second \<open>=\<close> leaves no trace, and a pair that resolves is written with \<open>b\<close> as its value.
  The value of a token \<open>a=\<close> is the empty string.
\<close>

theorem later_equals_dropped:
  assumes "CHR ''='' \<notin> set a" and "CHR ''='' \<notin> set b"
  shows "py_split CHR ''='' (a @ ''='' @ b @ ''='' @ c) = a # b # py_split CHR ''='' c
     \<and> make_readable_loop lib self ((a @ ''='' @ b @ ''='' @ c) # rest)
         = make_readable_loop lib self ((a @ ''='' @ b) # rest)
     \<and> (fields_elem self = Some fs
          \<and> find_child_attr lib ''field'' ''number'' a fs = Inr (Some field)
          \<and> get field ''name'' = Some nm
          \<and> (if hide_enums self then Some [] else snd (get_enum_str lib self a b)) = Some ann
        \<longrightarrow> make_readable_loop lib self ((a @ ''='' @ b @ ''='' @ c) # rest) =
              [Write (pad_right 5 a @ '' | '' @ pad_right 23 nm @ '' | '' @ b @ ann @ [CHR 0x0A])]
              @ (if row_lines self then [Write build_row_separator] else [])
              @ make_readable_loop lib self rest)
     \<and> py_split CHR ''='' (a @ ''='') = [a, []]
     \<and> (fields_elem self = Some fs
          \<and> find_child_attr lib ''field'' ''number'' a fs = Inr (Some field)
          \<and> get field ''name'' = Some nm
          \<and> (if hide_enums self then Some [] else snd (get_enum_str lib self a [])) = Some ann0
        \<longrightarrow> make_readable_loop lib self ((a @ ''='') # rest) =
              [Write (pad_right 5 a @ '' | '' @ pad_right 23 nm @ '' | '' @ ann0 @ [CHR 0x0A])]
              @ (if row_lines self then [Write build_row_separator] else [])
              @ make_readable_loop lib self rest)"
proof -
  have s3: "py_split CHR ''='' (a @ ''='' @ b @ ''='' @ c) = a # b # py_split CHR ''='' c"
    using py_split_append [OF assms(1), of "b @ ''='' @ c"] py_split_append [OF assms(2), of c]
    by simp
  have s2: "py_split CHR ''='' (a @ ''='' @ b) = a # b # []"
    using py_split_append [OF assms(1), of b] py_split_no_sep [OF assms(2)]
    by simp
  have s1: "py_split CHR ''='' (a @ ''='') = a # [] # []"
    using py_split_append [OF assms(1), of "[]"]
    by simp
  obtain others where s3': "py_split CHR ''='' (a @ ''='' @ b @ ''='' @ c) = a # b # others"
    using s3 by blast
  have same: "make_readable_loop lib self ((a @ ''='' @ b @ ''='' @ c) # rest)
         = make_readable_loop lib self ((a @ ''='' @ b) # rest)"
    unfolding make_readable_loop_pair [OF s3'] make_readable_loop_pair [OF s2] ..
  have r3: "make_readable_loop lib self ((a @ ''='' @ b @ ''='' @ c) # rest) =
              [Write (pad_right 5 a @ '' | '' @ pad_right 23 nm @ '' | '' @ b @ ann @ [CHR 0x0A])]
              @ (if row_lines self then [Write build_row_separator] else [])
              @ make_readable_loop lib self rest"
    if "fields_elem self = Some fs" "find_child_attr lib ''field'' ''number'' a fs = Inr (Some field)"
       "get field ''name'' = Some nm"
       "(if hide_enums self then Some [] else snd (get_enum_str lib self a b)) = Some ann"
    using make_readable_loop_line [OF s3' make_readable_body_resolved [OF that]] by simp
  have r1: "make_readable_loop lib self ((a @ ''='') # rest) =
              [Write (pad_right 5 a @ '' | '' @ pad_right 23 nm @ '' | '' @ ann0 @ [CHR 0x0A])]
              @ (if row_lines self then [Write build_row_separator] else [])
              @ make_readable_loop lib self rest"
    if "fields_elem self = Some fs" "find_child_attr lib ''field'' ''number'' a fs = Inr (Some field)"
       "get field ''name'' = Some nm"
       "(if hide_enums self then Some [] else snd (get_enum_str lib self a [])) = Some ann0"
    using make_readable_loop_line [OF s1 make_readable_body_resolved [OF that]] by simp
  from s3 same s1 r3 r1 show ?thesis
    by blast
qed

theorem later_equals_dropped_witness:
  "CHR ''='' \<notin> set ''55'' \<and> CHR ''='' \<notin> set ''A''
   \<and> fields_elem (example_parser False False) = Some example_fields
   \<and> find_child_attr strict_lib ''field'' ''number'' ''55'' example_fields = Inr (Some example_symbol)
   \<and> get example_symbol ''name'' = Some ''Symbol''
   \<and> (if hide_enums (example_parser False False) then Some []
        else snd (get_enum_str strict_lib (example_parser False False) ''55'' ''A'')) = Some []
   \<and> (if hide_enums (example_parser False False) then Some []
        else snd (get_enum_str strict_lib (example_parser False False) ''55'' [])) = Some []
   \<and> py_split CHR ''='' ''55=A=B=C'' = [''55'', ''A'', ''B'', ''C'']
   \<and> make_readable_loop strict_lib (example_parser False False) [''55=A=B=C'']
       = [Write (''55    | Symbol                  | A'' @ [CHR 0x0A])]
   \<and> make_readable_loop strict_lib (example_parser False False) [''55='']
       = [Write (''55    | Symbol                  | '' @ [CHR 0x0A])]"
proof -
  let ?self = "example_parser False False"
  have a: "CHR ''='' \<notin> set ''55''" and b: "CHR ''='' \<notin> set ''A''"
    by simp_all
  have h1: "fields_elem ?self = Some example_fields"
    by (simp add: example_parser_def)
  have h2: "find_child_attr strict_lib ''field'' ''number'' ''55'' example_fields = Inr (Some example_symbol)"
    by code_simp
  have h3: "get example_symbol ''name'' = Some ''Symbol''"
    by code_simp
  have h4: "(if hide_enums ?self then Some [] else snd (get_enum_str strict_lib ?self ''55'' ''A'')) = Some []"
    by code_simp
  have h5: "(if hide_enums ?self then Some [] else snd (get_enum_str strict_lib ?self ''55'' [])) = Some []"
    by code_simp
  note inst = later_equals_dropped [OF a b, where c = "''B=C''" and lib = strict_lib and self = ?self
      and rest = "[]" and fs = example_fields and field = example_symbol and nm = "''Symbol''"
      and ann = "[]" and ?ann0.0 = "[]"]
  have "py_split CHR ''='' (''55'' @ ''='' @ ''A'' @ ''='' @ ''B=C'') = ''55'' # ''A'' # py_split CHR ''='' ''B=C''"
    using inst by blast
  also have "\<dots> = [''55'', ''A'', ''B'', ''C'']"
    by code_simp
  finally have c1: "py_split CHR ''='' ''55=A=B=C'' = [''55'', ''A'', ''B'', ''C'']"
    by simp
  have "make_readable_loop strict_lib ?self ((''55'' @ ''='' @ ''A'' @ ''='' @ ''B=C'') # []) =
              [Write (pad_right 5 ''55'' @ '' | '' @ pad_right 23 ''Symbol'' @ '' | '' @ ''A'' @ [] @ [CHR 0x0A])]
              @ (if row_lines ?self then [Write build_row_separator] else [])
              @ make_readable_loop strict_lib ?self []"
    using inst h1 h2 h3 h4 by blast
  also have "\<dots> = [Write (''55    | Symbol                  | A'' @ [CHR 0x0A])]"
    by code_simp
  finally have c2: "make_readable_loop strict_lib ?self [''55=A=B=C'']
       = [Write (''55    | Symbol                  | A'' @ [CHR 0x0A])]"
    by simp
  have "make_readable_loop strict_lib ?self ((''55'' @ ''='') # []) =
              [Write (pad_right 5 ''55'' @ '' | '' @ pad_right 23 ''Symbol'' @ '' | '' @ [] @ [CHR 0x0A])]
              @ (if row_lines ?self then [Write build_row_separator] else [])
              @ make_readable_loop strict_lib ?self []"
    using inst h1 h2 h3 h5 by blast
  also have "\<dots> = [Write (''55    | Symbol                  | '' @ [CHR 0x0A])]"
    by code_simp
  finally have c3: "make_readable_loop strict_lib ?self [''55='']
       = [Write (''55    | Symbol                  | '' @ [CHR 0x0A])]"
    by simp
  from a b h1 h2 h3 h4 h5 c1 c2 c3 show ?thesis
    by blast
qed

subsection \<open>C2: the enum annotation\<close>

text \<open>
  Claim C2. For every pair of tag and value of an enumerated field the annotation is to
  be the description of the matching code in parentheses, or the marker \<open>no_match\<close> when
  no code matches, padded to width 65 and followed by the listing of all entries. For a
  value without an apostrophe it is (\<open>enum_annotation_plain\<close>). The source puts the value
  between two apostrophes into the path text and does not escape it, so a value that
  holds an apostrophe is not compared with the codes. For the value \<open>O'Brien\<close> of field
  54 the library raises \<open>invalid predicate\<close> on the path, as \<open>strict_lib\<close> does:
  \<open>get_enum_str\<close> prints the exception and returns \<open>None\<close>, \<open>make_readable\<close> fails on the
  concatenation, and the run writes no field line for the pair, only the message
  separator. The value \<open>9\<close>, which is no code of the field either, takes the \<open>else\<close> branch
  and gets the marker and the listing.
\<close>

theorem enum_annotation_apostrophe:
  "map enum_entry (children example_side) = map Some [(''1'', ''BUY''), (''2'', ''SELL'')]
   \<and> find_child_attr strict_lib ''value'' ''enum'' (''O'' @ [CHR 0x27] @ ''Brien'') example_side
       = Inl (PathError ''invalid predicate'')
   \<and> get_enum_str strict_lib (example_parser False False) ''54'' (''O'' @ [CHR 0x27] @ ''Brien'')
       = ([Print ''get_enum_str Exception :- invalid predicate''], None)
   \<and> main strict_lib False False example_dictionary (''54=O'' @ [CHR 0x27] @ ''Brien'' @ [CHR 0x0A])
       = [Print ''get_enum_str Exception :- invalid predicate'',
          Print (''tag number 54 readable Exception :- '' @ str_of_error ConcatNone),
          Write build_msg_separator]
   \<and> get_enum_str strict_lib (example_parser False False) ''54'' ''9''
       = ([], Some (no_match @ replicate 21 CHR '' '' @ ''1 : BUY, 2 : SELL, ''))"
  by code_simp

subsection \<open>C1: a tag number that the dictionary does not define\<close>

text \<open>
  Claim C1 says that a pair with an unknown tag number is skipped and the remaining pairs
  of the line are still rendered. In the source the \<open>try\<close> of \<open>make_readable\<close> encloses the
  whole loop, so the exception ends the loop: for the line \<open>999=x\<close>, \<open>55=IBM\<close> nothing is
  written but the message separator, although \<open>55=IBM\<close> alone is rendered.
\<close>

theorem unknown_tag_counterexample:
  "find_child_attr strict_lib ''field'' ''number'' ''999'' example_fields = Inr None
   \<and> written (main strict_lib False False example_dictionary (''55=IBM'' @ [CHR 0x0A]))
       = [''55    | Symbol                  | IBM'' @ [CHR 0x0A], build_msg_separator]
   \<and> written (main strict_lib False False example_dictionary
                (''999=x'' @ [CHR 0x01] @ ''55=IBM'' @ [CHR 0x0A]))
       = [build_msg_separator]"
  by code_simp

text \<open>
  Claim C1, amended. Take a line that is processed and a pair of it whose tag number the
  lookup in the dictionary does not resolve: \<open>find\<close> gives \<open>None\<close> (for a tag number
  without an apostrophe: exactly when no \<open>field\<close> element has that number) or the library
  raises on the path. Then the line ends at that pair. The effects of the line are those
  of the line cut after the pair, then the message separator, then the processing of
  the rest of the input: no later pair of the line is rendered or reported. What the
  line writes is what the pairs before it wrote, then the message separator. If no
  earlier pair of the line raised, the effects are those of the earlier pairs, then one
  printed message that names the tag number of the pair, then the message separator.
\<close>

theorem unknown_tag_ends_line:
  assumes "is_message line"
    and "py_split (CHR 0x01) (strip line) = pre @ token # post"
    and "py_split CHR ''='' token = tag_number # tag_value # others"
    and "fields_elem self = Some fs"
    and "lookup_error (find_child_attr lib ''field'' ''number'' tag_number fs) = Some e"
  shows "parse_input_loop lib self line input =
           make_readable lib self (pre @ [token]) @ [Write build_msg_separator]
           @ parse_input_file lib self input
     \<and> written (parse_input_loop lib self line input) =
           written (make_readable lib self pre) @ [build_msg_separator]
           @ written (parse_input_file lib self input)
     \<and> (list_all (\<lambda>t. \<not> pass_raises lib self t) pre \<longrightarrow>
          parse_input_loop lib self line input =
            make_readable lib self pre
            @ [Print (''tag number '' @ tag_number @ '' readable Exception :- '' @ str_of_error e)]
            @ [Write build_msg_separator]
            @ parse_input_file lib self input)
     \<and> (xpath_plain t \<longrightarrow>
          (lookup_error (find_child_attr lib ''field'' ''number'' t d) = Some (NoneHasNoAttribute ''get''))
            = (\<not> list_ex (\<lambda>c. tag c = ''field'' \<and> get c ''number'' = Some t) (children d)))"
proof -
  note body = make_readable_body_lookup_error [OF assms(4,5), of tag_value]
  note whole = parse_input_loop_message [OF assms(1), of lib self input, unfolded assms(2)]
  have cut: "parse_input_loop lib self line input =
           make_readable lib self (pre @ [token]) @ [Write build_msg_separator]
           @ parse_input_file lib self input"
    using whole make_readable_loop_abort [OF assms(3) body, of pre post]
    by (simp add: make_readable_def)
  have kept: "written (parse_input_loop lib self line input) =
           written (make_readable lib self pre) @ [build_msg_separator]
           @ written (parse_input_file lib self input)"
    using whole make_readable_loop_abort_written [OF assms(3) body, of pre post]
    by (simp add: make_readable_def)
  have named: "parse_input_loop lib self line input =
            make_readable lib self pre
            @ [Print (''tag number '' @ tag_number @ '' readable Exception :- '' @ str_of_error e)]
            @ [Write build_msg_separator]
            @ parse_input_file lib self input"
    if "list_all (\<lambda>t. \<not> pass_raises lib self t) pre"
    using cut make_readable_loop_append [OF that, of "[token]"]
      make_readable_loop_fail [OF assms(3) body, of "[]"]
    by (simp add: make_readable_def)
  from cut kept named lookup_error_plain [of t lib d] show ?thesis
    by blast
qed

theorem unknown_tag_ends_line_witness:
  "is_message (''54=1'' @ [CHR 0x01] @ ''999=x'' @ [CHR 0x01] @ ''998=y'' @ [CHR 0x0A])
   \<and> py_split (CHR 0x01) (strip (''54=1'' @ [CHR 0x01] @ ''999=x'' @ [CHR 0x01] @ ''998=y'' @ [CHR 0x0A]))
       = [''54=1''] @ ''999=x'' # [''998=y'']
   \<and> py_split CHR ''='' ''999=x'' = [''999'', ''x'']
   \<and> fields_elem (example_parser True False) = Some example_fields
   \<and> xpath_plain ''999''
   \<and> \<not> list_ex (\<lambda>c. tag c = ''field'' \<and> get c ''number'' = Some ''999'') (children example_fields)
   \<and> lookup_error (find_child_attr strict_lib ''field'' ''number'' ''999'' example_fields)
       = Some (NoneHasNoAttribute ''get'')
   \<and> list_all (\<lambda>t. \<not> pass_raises strict_lib (example_parser True False) t) [''54=1'']
   \<and> parse_input_loop strict_lib (example_parser True False)
         (''54=1'' @ [CHR 0x01] @ ''999=x'' @ [CHR 0x01] @ ''998=y'' @ [CHR 0x0A]) []
       = [Write (''54    | Side                    | 1'' @ [CHR 0x0A]),
          Print (''tag number 999 readable Exception :- '' @ str_of_error (NoneHasNoAttribute ''get'')),
          Write build_msg_separator]
   \<and> lookup_error (find_child_attr strict_lib ''field'' ''number'' (''9'' @ [CHR 0x27] @ ''9'') example_fields)
       = Some (PathError ''invalid predicate'')
   \<and> parse_input_loop strict_lib (example_parser True False)
         (''9'' @ [CHR 0x27] @ ''9=x'' @ [CHR 0x01] @ ''55=IBM'' @ [CHR 0x0A]) []
       = [Print (''tag number 9'' @ [CHR 0x27] @ ''9 readable Exception :- invalid predicate''),
          Write build_msg_separator]"
proof -
  let ?self = "example_parser True False"
  let ?line = "''54=1'' @ [CHR 0x01] @ ''999=x'' @ [CHR 0x01] @ ''998=y'' @ [CHR 0x0A]"
  let ?tag = "''9'' @ [CHR 0x27] @ ''9''"
  let ?line2 = "''9'' @ [CHR 0x27] @ ''9=x'' @ [CHR 0x01] @ ''55=IBM'' @ [CHR 0x0A]"
  have h1: "is_message ?line"
    by code_simp
  have h2: "py_split (CHR 0x01) (strip ?line) = [''54=1''] @ ''999=x'' # [''998=y'']"
    by code_simp
  have h3: "py_split CHR ''='' ''999=x'' = ''999'' # ''x'' # []"
    by code_simp
  have h4: "fields_elem ?self = Some example_fields"
    by (simp add: example_parser_def)
  have plain: "xpath_plain ''999''"
    by (simp add: xpath_plain_def)
  have none: "\<not> list_ex (\<lambda>c. tag c = ''field'' \<and> get c ''number'' = Some ''999'') (children example_fields)"
    by code_simp
  note inst = unknown_tag_ends_line [where lib = strict_lib and input = "[]"
      and t = "''999''" and d = example_fields]
  have h5: "lookup_error (find_child_attr strict_lib ''field'' ''number'' ''999'' example_fields)
       = Some (NoneHasNoAttribute ''get'')"
    by code_simp
  have reach: "list_all (\<lambda>t. \<not> pass_raises strict_lib ?self t) [''54=1'']"
    by code_simp
  have "parse_input_loop strict_lib ?self ?line [] =
            make_readable strict_lib ?self [''54=1'']
            @ [Print (''tag number '' @ ''999'' @ '' readable Exception :- ''
                      @ str_of_error (NoneHasNoAttribute ''get''))]
            @ [Write build_msg_separator]
            @ parse_input_file strict_lib ?self []"
    using inst [OF h1 h2 h3 h4 h5] reach by blast
  also have "\<dots> = [Write (''54    | Side                    | 1'' @ [CHR 0x0A]),
          Print (''tag number 999 readable Exception :- '' @ str_of_error (NoneHasNoAttribute ''get'')),
          Write build_msg_separator]"
    by code_simp
  finally have c1: "parse_input_loop strict_lib ?self ?line []
       = [Write (''54    | Side                    | 1'' @ [CHR 0x0A]),
          Print (''tag number 999 readable Exception :- '' @ str_of_error (NoneHasNoAttribute ''get'')),
          Write build_msg_separator]" .
  have g1: "is_message ?line2"
    by code_simp
  have g2: "py_split (CHR 0x01) (strip ?line2) = [] @ (?tag @ ''=x'') # [''55=IBM'']"
    by code_simp
  have g3: "py_split CHR ''='' (?tag @ ''=x'') = ?tag # ''x'' # []"
    by code_simp
  have g5: "lookup_error (find_child_attr strict_lib ''field'' ''number'' ?tag example_fields)
       = Some (PathError ''invalid predicate'')"
    by code_simp
  have g6: "list_all (\<lambda>t. \<not> pass_raises strict_lib ?self t) []"
    by simp
  have "parse_input_loop strict_lib ?self ?line2 [] =
            make_readable strict_lib ?self []
            @ [Print (''tag number '' @ ?tag @ '' readable Exception :- ''
                      @ str_of_error (PathError ''invalid predicate''))]
            @ [Write build_msg_separator]
            @ parse_input_file strict_lib ?self []"
    using inst [OF g1 g2 g3 h4 g5] g6 by blast
  also have "\<dots> = [Print (''tag number 9'' @ [CHR 0x27] @ ''9 readable Exception :- invalid predicate''),
          Write build_msg_separator]"
    by code_simp
  finally have c2: "parse_input_loop strict_lib ?self ?line2 []
       = [Print (''tag number 9'' @ [CHR 0x27] @ ''9 readable Exception :- invalid predicate''),
          Write build_msg_separator]" .
  from h1 h2 h3 h4 plain none h5 reach c1 g5 c2 show ?thesis
    by blast
qed

subsection \<open>C10: what an exception leaves behind\<close>

text \<open>
  Claim C10. Let the pass for one token of a line end in an exception. Then the output
  of the line is what the tokens before it wrote (that text is not taken back), followed
  by the message separator, and the rest of the input is processed as it would be on
  its own.
\<close>

theorem failure_keeps_output:
  assumes "is_message line"
    and "py_split (CHR 0x01) (strip line) = pre @ token # post"
    and "py_split CHR ''='' token = tag_number # tag_value # others"
    and "make_readable_body lib self tag_number tag_value = (tr, Inl e)"
  shows "written (parse_input_loop lib self line input) =
           written (make_readable lib self pre) @ [build_msg_separator]
           @ written (parse_input_file lib self input)"
proof -
  have "written (make_readable lib self (pre @ token # post)) = written (make_readable lib self pre)"
    using make_readable_loop_abort_written [OF assms(3,4)] by (simp add: make_readable_def)
  then show ?thesis
    by (simp add: parse_input_loop_message [OF assms(1)] assms(2))
qed

theorem failure_keeps_output_witness:
  "is_message (''54=1'' @ [CHR 0x01] @ ''999=x'' @ [CHR 0x01] @ ''55=IBM'' @ [CHR 0x0A])
   \<and> py_split (CHR 0x01) (strip (''54=1'' @ [CHR 0x01] @ ''999=x'' @ [CHR 0x01] @ ''55=IBM'' @ [CHR 0x0A]))
       = [''54=1''] @ ''999=x'' # [''55=IBM'']
   \<and> py_split CHR ''='' ''999=x'' = [''999'', ''x'']
   \<and> make_readable_body strict_lib (example_parser True False) ''999'' ''x''
       = ([], Inl (NoneHasNoAttribute ''get''))
   \<and> written (parse_input_loop strict_lib (example_parser True False)
                (''54=1'' @ [CHR 0x01] @ ''999=x'' @ [CHR 0x01] @ ''55=IBM'' @ [CHR 0x0A])
                (''55=IBM'' @ [CHR 0x0A]))
       = [''54    | Side                    | 1'' @ [CHR 0x0A], build_msg_separator,
          ''55    | Symbol                  | IBM'' @ [CHR 0x0A], build_msg_separator]"
proof -
  let ?self = "example_parser True False"
  let ?line = "''54=1'' @ [CHR 0x01] @ ''999=x'' @ [CHR 0x01] @ ''55=IBM'' @ [CHR 0x0A]"
  have h1: "is_message ?line"
    by code_simp
  have h2: "py_split (CHR 0x01) (strip ?line) = [''54=1''] @ ''999=x'' # [''55=IBM'']"
    by code_simp
  have h3: "py_split CHR ''='' ''999=x'' = ''999'' # ''x'' # []"
    by code_simp
  have h4: "make_readable_body strict_lib ?self ''999'' ''x'' = ([], Inl (NoneHasNoAttribute ''get''))"
    by code_simp
  have "written (parse_input_loop strict_lib ?self ?line (''55=IBM'' @ [CHR 0x0A])) =
           written (make_readable strict_lib ?self [''54=1'']) @ [build_msg_separator]
           @ written (parse_input_file strict_lib ?self (''55=IBM'' @ [CHR 0x0A]))"
    using failure_keeps_output [OF h1 h2 h3 h4] .
  also have "\<dots> = [''54    | Side                    | 1'' @ [CHR 0x0A], build_msg_separator,
          ''55    | Symbol                  | IBM'' @ [CHR 0x0A], build_msg_separator]"
    by code_simp
  finally show ?thesis
    using h1 h2 h3 h4 by simp
qed

subsection \<open>C6: row separators\<close>

text \<open>
  Claim C6. The row separator is 5 dashes, \<open>-+-\<close>, 23 dashes, \<open>-+-\<close>, 65 dashes and a
  newline. With \<open>row_lines\<close>, what \<open>make_readable\<close> writes for a line is what it writes
  without \<open>row_lines\<close> (the field lines, none of which is a row separator), with one row
  separator in front and one more after every field line: so a row separator stands
  immediately before each field line and after the last one.
\<close>

theorem row_separators:
  assumes "row_lines self"
  shows "written (make_readable lib self tags) =
           build_row_separator #
           concat (map (\<lambda>field_line. [field_line, build_row_separator])
             (written (make_readable lib (self\<lparr>row_lines := False\<rparr>) tags)))
     \<and> build_row_separator \<notin> set (written (make_readable lib (self\<lparr>row_lines := False\<rparr>) tags))
     \<and> build_row_separator =
         replicate 5 CHR ''-'' @ ''-+-'' @ replicate 23 CHR ''-'' @ ''-+-'' @ replicate 65 CHR ''-''
         @ [CHR 0x0A]"
proof -
  have "build_row_separator \<notin> set (written (make_readable lib (self\<lparr>row_lines := False\<rparr>) tags))"
    using make_readable_loop_plain_lines [of "self\<lparr>row_lines := False\<rparr>" build_row_separator lib tags]
      separators_no_bar(1)
    by (auto simp: make_readable_def)
  then show ?thesis
    using make_readable_loop_row_lines [OF assms, of lib tags] build_row_separator_eq assms
    by (simp add: make_readable_def)
qed

theorem row_separators_witness:
  "row_lines (example_parser True True)
   \<and> written (make_readable strict_lib (example_parser True True) [''54=1'', ''junk'', ''55=IBM''])
       = [build_row_separator,
          ''54    | Side                    | 1'' @ [CHR 0x0A], build_row_separator,
          ''55    | Symbol                  | IBM'' @ [CHR 0x0A], build_row_separator]"
proof -
  let ?self = "example_parser True True"
  have h: "row_lines ?self"
    by (simp add: example_parser_def)
  have "written (make_readable strict_lib ?self [''54=1'', ''junk'', ''55=IBM'']) =
           build_row_separator #
           concat (map (\<lambda>field_line. [field_line, build_row_separator])
             (written (make_readable strict_lib (?self\<lparr>row_lines := False\<rparr>) [''54=1'', ''junk'', ''55=IBM''])))"
    using row_separators [OF h, of strict_lib "[''54=1'', ''junk'', ''55=IBM'']"] by blast
  also have "\<dots> = [build_row_separator,
          ''54    | Side                    | 1'' @ [CHR 0x0A], build_row_separator,
          ''55    | Symbol                  | IBM'' @ [CHR 0x0A], build_row_separator]"
    by code_simp
  finally show ?thesis
    using h by simp
qed

subsection \<open>C4: the message separator\<close>

text \<open>
  Claim C4. The message separator is 100 periods and a newline. What a run writes is,
  line by line of the input: nothing for a blank line or a comment; for any other line
  what \<open>make_readable\<close> writes for its tokens, then the message separator, whatever
  \<open>row_lines\<close> is. \<open>make_readable\<close> never writes a message separator itself, so the run
  writes exactly one per processed line. A line without any token that holds a \<open>=\<close> gives
  no field line: its block is the message separator alone, after the one row separator
  that \<open>make_readable\<close> writes first when \<open>row_lines\<close> is set.
\<close>

theorem message_separator:
  "build_msg_separator = replicate 100 CHR ''.'' @ [CHR 0x0A]
   \<and> written (parse_input_file lib self input) =
        concat (map (\<lambda>line. if is_message line
                             then written (make_readable lib self (py_split (CHR 0x01) (strip line)))
                                  @ [build_msg_separator]
                             else [])
                    (file_lines input))
   \<and> build_msg_separator \<notin> set (written (make_readable lib self tags))
   \<and> count_list (written (parse_input_file lib self input)) build_msg_separator
        = length (filter is_message (file_lines input))
   \<and> (CHR ''='' \<notin> set (concat tags) \<longrightarrow>
        written (make_readable lib self tags @ [Write build_msg_separator])
          = (if row_lines self then [build_row_separator] else []) @ [build_msg_separator])"
proof -
  have "count_list (written (parse_input_file lib self input)) build_msg_separator
        = length (filter is_message (file_lines input))"
    by (simp only: written_parse_input_file count_msg_separator_blocks)
  moreover have "written (parse_input_file lib self input) =
        concat (map (\<lambda>line. if is_message line
                             then written (make_readable lib self (py_split (CHR 0x01) (strip line)))
                                  @ [build_msg_separator]
                             else [])
                    (file_lines input))"
    by (simp only: written_parse_input_file written_line_block)
  moreover have "CHR ''='' \<notin> set (concat tags) \<longrightarrow>
        written (make_readable lib self tags @ [Write build_msg_separator])
          = (if row_lines self then [build_row_separator] else []) @ [build_msg_separator]"
    by (simp add: make_readable_def make_readable_loop_no_pairs)
  ultimately show ?thesis
    using build_msg_separator_eq make_readable_no_msg_separator [of lib self tags]
    by blast
qed

theorem message_separator_witness:
  "CHR ''='' \<notin> set (concat [''junk'', []])
   \<and> written (make_readable strict_lib (example_parser False True) [''junk'', []]
               @ [Write build_msg_separator])
       = [build_row_separator, build_msg_separator]
   \<and> written (make_readable strict_lib (example_parser False False) [''junk'', []]
               @ [Write build_msg_separator])
       = [build_msg_separator]
   \<and> file_lines (''# c'' @ [CHR 0x0A, CHR 0x0A] @ ''junk'' @ [CHR 0x01, CHR 0x0A] @ ''55=IBM'')
       = [''# c'' @ [CHR 0x0A], [CHR 0x0A], ''junk'' @ [CHR 0x01, CHR 0x0A], ''55=IBM'']
   \<and> written (parse_input_file strict_lib (example_parser False False)
                (''# c'' @ [CHR 0x0A, CHR 0x0A] @ ''junk'' @ [CHR 0x01, CHR 0x0A] @ ''55=IBM''))
       = [build_msg_separator, ''55    | Symbol                  | IBM'' @ [CHR 0x0A], build_msg_separator]
   \<and> count_list (written (parse_input_file strict_lib (example_parser False False)
                (''# c'' @ [CHR 0x0A, CHR 0x0A] @ ''junk'' @ [CHR 0x01, CHR 0x0A] @ ''55=IBM'')))
         build_msg_separator = 2"
proof -
  let ?input = "''# c'' @ [CHR 0x0A, CHR 0x0A] @ ''junk'' @ [CHR 0x01, CHR 0x0A] @ ''55=IBM''"
  let ?tags = "[''junk'', []]"
  have h: "CHR ''='' \<notin> set (concat ?tags)"
    by simp
  have rows: "row_lines (example_parser False True)" and plain: "\<not> row_lines (example_parser False False)"
    by (simp_all add: example_parser_def)
  have c1: "written (make_readable strict_lib (example_parser False True) ?tags @ [Write build_msg_separator])
       = [build_row_separator, build_msg_separator]"
    using message_separator [of strict_lib "example_parser False True" ?input ?tags] h rows
    by simp
  have c2: "written (make_readable strict_lib (example_parser False False) ?tags @ [Write build_msg_separator])
       = [build_msg_separator]"
    using message_separator [of strict_lib "example_parser False False" ?input ?tags] h plain
    by simp
  have fl: "file_lines ?input = [''# c'' @ [CHR 0x0A], [CHR 0x0A], ''junk'' @ [CHR 0x01, CHR 0x0A], ''55=IBM'']"
    by code_simp
  have "written (parse_input_file strict_lib (example_parser False False) ?input) =
        concat (map (\<lambda>line. if is_message line
                             then written (make_readable strict_lib (example_parser False False)
                                             (py_split (CHR 0x01) (strip line)))
                                  @ [build_msg_separator]
                             else [])
                    (file_lines ?input))"
    using message_separator [of strict_lib "example_parser False False" ?input ?tags] by blast
  also have "\<dots> = [build_msg_separator, ''55    | Symbol                  | IBM'' @ [CHR 0x0A], build_msg_separator]"
    by code_simp
  finally have c3: "written (parse_input_file strict_lib (example_parser False False) ?input)
       = [build_msg_separator, ''55    | Symbol                  | IBM'' @ [CHR 0x0A], build_msg_separator]" .
  have "count_list (written (parse_input_file strict_lib (example_parser False False) ?input))
         build_msg_separator = length (filter is_message (file_lines ?input))"
    using message_separator [of strict_lib "example_parser False False" ?input ?tags] by blast
  also have "\<dots> = 2"
    by code_simp
  finally have c4: "count_list (written (parse_input_file strict_lib (example_parser False False) ?input))
         build_msg_separator = 2" .
  from h c1 c2 fl c3 c4 show ?thesis
    by blast
qed

subsection \<open>C5: a dictionary that cannot be loaded\<close>

text \<open>
  Claim C5 says that a dictionary that cannot be parsed, or that has no \<open>fields\<close> section,
  aborts the run before any input is read. \<open>init_fields\<close> catches the exception and prints
  it (a missing \<open>fields\<close> section is not noticed at all), and \<open>main\<close> goes on to
  \<open>parse_input_file\<close>: the input line below is read, its pair fails on \<open>self.fields\<close>
  being \<open>None\<close>, and the message separator is written.
\<close>

theorem load_failure_counterexample:
  "written (main strict_lib False False (Unparsable ''no such file'') (''54=1'' @ [CHR 0x0A]))
     = [build_msg_separator]
   \<and> printed (main strict_lib False False (Unparsable ''no such file'') (''54=1'' @ [CHR 0x0A]))
     = [''init_fields Exception :- no such file'',
        ''tag number 54 readable Exception :- '' @ str_of_error (NoneHasNoAttribute ''find'')]
   \<and> written (main strict_lib False False (Parsed (Element ''fix'' [] [])) (''54=1'' @ [CHR 0x0A]))
     = [build_msg_separator]"
  by code_simp

text \<open>
  Claim C5, amended. If the dictionary document cannot be parsed, the exception is
  printed; if it has no \<open>fields\<close> section, nothing is reported. In both cases
  \<open>self.fields\<close> stays \<open>None\<close> and the run goes on: every input line that is neither blank
  nor a comment is processed, no field line is written for it, and its message separator
  is written (after one row separator when \<open>row_lines\<close> is set).
\<close>

theorem load_failure_not_fatal:
  assumes "dictionary_unusable doc"
  shows "snd (init_fields self doc) = self
     \<and> printed (fst (init_fields self doc))
         = (case doc of Unparsable msg \<Rightarrow> [''init_fields Exception :- '' @ msg] | Parsed root \<Rightarrow> [])
     \<and> written (main lib hide rows doc input) =
         concat (map (\<lambda>line. if is_message line
                              then (if rows then [build_row_separator] else []) @ [build_msg_separator]
                              else [])
                     (file_lines input))"
proof -
  let ?self = "\<lparr>hide_enums = hide, row_lines = rows, fields_elem = None\<rparr>"
  have loaded: "snd (init_fields s doc) = s" for s
    using assms by (rule init_fields_unusable)
  have quiet: "written (fst (init_fields s doc)) = []" for s
    by (cases doc) (simp_all add: init_fields_def)
  have block: "written (line_block lib ?self line) =
      (if is_message line then (if rows then [build_row_separator] else []) @ [build_msg_separator] else [])"
    for line
    by (simp add: written_line_block make_readable_def make_readable_loop_no_fields)
  have "main lib hide rows doc input = fst (init_fields ?self doc) @ parse_input_file lib ?self input"
    using loaded [of ?self] by (simp add: main_def case_prod_beta Let_def)
  then have "written (main lib hide rows doc input) =
      concat (map (\<lambda>line. written (line_block lib ?self line)) (file_lines input))"
    by (simp add: quiet written_parse_input_file)
  then have "written (main lib hide rows doc input) =
         concat (map (\<lambda>line. if is_message line
                              then (if rows then [build_row_separator] else []) @ [build_msg_separator]
                              else [])
                     (file_lines input))"
    by (simp only: block)
  moreover have "printed (fst (init_fields self doc))
         = (case doc of Unparsable msg \<Rightarrow> [''init_fields Exception :- '' @ msg] | Parsed root \<Rightarrow> [])"
    by (cases doc) (simp_all add: init_fields_def)
  ultimately show ?thesis
    using loaded [of self] by blast
qed

theorem load_failure_not_fatal_witness:
  "dictionary_unusable (Unparsable ''no such file'')
   \<and> dictionary_unusable (Parsed (Element ''fix'' [] [Element ''header'' [] []]))
   \<and> written (main strict_lib False True (Unparsable ''no such file'')
                (''# c'' @ [CHR 0x0A] @ ''54=1'' @ [CHR 0x0A] @ ''55=IBM''))
       = [build_row_separator, build_msg_separator, build_row_separator, build_msg_separator]
   \<and> written (main strict_lib False False (Parsed (Element ''fix'' [] [Element ''header'' [] []]))
                (''# c'' @ [CHR 0x0A] @ ''54=1'' @ [CHR 0x0A] @ ''55=IBM''))
       = [build_msg_separator, build_msg_separator]"
proof -
  let ?input = "''# c'' @ [CHR 0x0A] @ ''54=1'' @ [CHR 0x0A] @ ''55=IBM''"
  let ?doc = "Parsed (Element ''fix'' [] [Element ''header'' [] []])"
  have h1: "dictionary_unusable (Unparsable ''no such file'')"
    by (simp add: dictionary_unusable_def)
  have h2: "dictionary_unusable ?doc"
    by code_simp
  have "written (main strict_lib False True (Unparsable ''no such file'') ?input) =
         concat (map (\<lambda>line. if is_message line
                              then (if True then [build_row_separator] else []) @ [build_msg_separator]
                              else [])
                     (file_lines ?input))"
    using load_failure_not_fatal [OF h1] by blast
  also have "\<dots> = [build_row_separator, build_msg_separator, build_row_separator, build_msg_separator]"
    by code_simp
  finally have c1: "written (main strict_lib False True (Unparsable ''no such file'') ?input)
       = [build_row_separator, build_msg_separator, build_row_separator, build_msg_separator]" .
  have "written (main strict_lib False False ?doc ?input) =
         concat (map (\<lambda>line. if is_message line
                              then (if False then [build_row_separator] else []) @ [build_msg_separator]
                              else [])
                     (file_lines ?input))"
    using load_failure_not_fatal [OF h2] by blast
  also have "\<dots> = [build_msg_separator, build_msg_separator]"
    by code_simp
  finally have c2: "written (main strict_lib False False ?doc ?input)
       = [build_msg_separator, build_msg_separator]" .
  from h1 h2 c1 c2 show ?thesis
    by blast
qed

end
